theory Spec2Isabelle
  imports Complex_Main "HOL-Library.Word"
begin

section \<open>Arrays\<close>

text \<open>
  The pipeline works on numpy arrays. A colour frame (height x width x 3, uint8) is a list of
  rows, each row a list of pixels, each pixel the list of its channel bytes. A boolean mask and
  a uint8 mask are lists of rows. The index order is the source's: first y (row), then x.
\<close>

type_synonym byte = "8 word"
type_synonym frame = "byte list list list"
type_synonym mask = "bool list list"
type_synonym u8mask = "byte list list"

definition height :: "'a list list \<Rightarrow> nat" where
  "height a = length a"

definition width :: "'a list list \<Rightarrow> nat" where
  "width a = (case a of [] \<Rightarrow> 0 | r # _ \<Rightarrow> length r)"

definition shape2 :: "'a list list \<Rightarrow> nat \<times> nat" where
  \<comment> \<open>\<open>a.shape[:2]\<close>, as (height, width)\<close>
  "shape2 a = (height a, width a)"

definition channels :: "frame \<Rightarrow> nat" where
  \<comment> \<open>\<open>image.shape[2]\<close>\<close>
  "channels f = (case f of [] \<Rightarrow> 0 | r # _ \<Rightarrow> (case r of [] \<Rightarrow> 0 | p # _ \<Rightarrow> length p))"

definition shape3 :: "frame \<Rightarrow> nat \<times> nat \<times> nat" where
  "shape3 f = (height f, width f, channels f)"

definition rect :: "'a list list \<Rightarrow> bool" where
  \<comment> \<open>every row has the same length: what an ndarray is by construction\<close>
  "rect a = list_all (\<lambda>r. length r = width a) a"

definition zeros :: "nat \<times> nat \<Rightarrow> mask" where
  \<comment> \<open>\<open>np.zeros((h, w), dtype=bool)\<close>\<close>
  "zeros s = replicate (fst s) (replicate (snd s) False)"

definition any2 :: "mask \<Rightarrow> bool" where
  \<comment> \<open>\<open>mask.any()\<close>\<close>
  "any2 m = list_ex (list_ex (\<lambda>b. b)) m"

definition nonzero :: "mask \<Rightarrow> (nat \<times> nat) list" where
  \<comment> \<open>\<open>np.nonzero(mask)\<close>: the (y, x) of the set pixels, in row-major order\<close>
  "nonzero m =
     concat (map (\<lambda>(y, r). map (\<lambda>x. (y, x)) (filter (\<lambda>x. r ! x) [0..<length r]))
                 (enumerate 0 m))"

definition astype_u8 :: "mask \<Rightarrow> u8mask" where
  \<comment> \<open>\<open>mask.astype(np.uint8)\<close>\<close>
  "astype_u8 m = map (map (\<lambda>b. if b then 1 else 0)) m"

definition times255 :: "u8mask \<Rightarrow> u8mask" where
  \<comment> \<open>\<open>m * 255\<close> on uint8 (wraps modulo 256)\<close>
  "times255 m = map (map (\<lambda>v. v * 255)) m"

definition gt0 :: "u8mask \<Rightarrow> mask" where
  \<comment> \<open>\<open>m > 0\<close> and \<open>m.astype(bool)\<close> on uint8\<close>
  "gt0 m = map (map (\<lambda>v. v \<noteq> 0)) m"

definition logical_or :: "mask \<Rightarrow> mask \<Rightarrow> mask" where
  \<comment> \<open>\<open>np.logical_or(a, b)\<close> and \<open>a |= b\<close>, on arrays of one shape\<close>
  "logical_or a b = map2 (map2 (\<or>)) a b"

definition slice2 :: "nat \<Rightarrow> nat \<Rightarrow> nat \<Rightarrow> nat \<Rightarrow> 'a list list \<Rightarrow> 'a list list" where
  \<comment> \<open>\<open>a[y0:y1, x0:x1]\<close> for bounds that are not negative\<close>
  "slice2 y0 y1 x0 x1 a = map (\<lambda>r. take (x1 - x0) (drop x0 r)) (take (y1 - y0) (drop y0 a))"

definition assign_slice2 :: "nat \<Rightarrow> nat \<Rightarrow> 'a list list \<Rightarrow> 'a list list \<Rightarrow> 'a list list" where
  \<comment> \<open>\<open>a[y0:y0+h', x0:x0+w'] = b\<close> for a block \<open>b\<close> of shape (h', w') that fits in \<open>a\<close>\<close>
  "assign_slice2 y0 x0 b a =
     map (\<lambda>(y, r). if y0 \<le> y \<and> y < y0 + length b
                    then take x0 r @ (b ! (y - y0)) @ drop (x0 + length (b ! (y - y0))) r
                    else r)
         (enumerate 0 a)"

definition cvtColor_BGR2RGB :: "frame \<Rightarrow> frame" where
  \<comment> \<open>\<open>cv2.cvtColor(img, cv2.COLOR_BGR2RGB)\<close>: the three channels in reverse order\<close>
  "cvtColor_BGR2RGB img = map (map rev) img"

section \<open>External collaborators\<close>

text \<open>
  The detector (mmdet's \<open>DetInferencer\<close>) and the OpenCV calls are not code of this
  repository. The model takes them as the fields of an environment, one field per call the
  source makes, and the theorems say which properties of a call they rest on.
  The detector's prediction is read as the source reads it: parallel lists of masks, labels
  and scores, a mask being absent (\<open>None\<close>) or a decoded array.
\<close>

datatype error = ValueError | IndexError | InferenceError | CvError

record preds =
  p_masks :: "mask option list"
  p_labels :: "int list"
  p_scores :: "real list option"

record env =
  inferencer :: "frame \<Rightarrow> error + preds list option"
  cv_resize_linear :: "frame \<Rightarrow> nat \<times> nat \<Rightarrow> frame"
  cv_resize_nearest :: "u8mask \<Rightarrow> nat \<times> nat \<Rightarrow> u8mask"
  cv_connectedComponentsWithStats :: "u8mask \<Rightarrow> nat \<times> nat list list \<times> nat list"
  cv_getStructuringElement :: "int \<times> int \<Rightarrow> u8mask"
  cv_morph_close :: "u8mask \<Rightarrow> u8mask \<Rightarrow> u8mask"
  cv_dilate :: "u8mask \<Rightarrow> u8mask \<Rightarrow> u8mask"
  cv_inpaint :: "frame \<Rightarrow> u8mask \<Rightarrow> int \<Rightarrow> int \<Rightarrow> frame"
  cv_imdecode :: "byte list \<Rightarrow> frame option"
  cv_imencode :: "frame \<Rightarrow> int \<Rightarrow> byte list option"

section \<open>rtmdet\_inpainter.py: RTMDetInpainter\<close>

text \<open>
  The object is the record of its attributes; a method takes it as \<open>self\<close>. An exception is
  the left summand of the result. Left out: the construction of the inferencer, the warm-up,
  the lock around the inferencer call (one call is modelled at a time), and the decoding of
  run-length encoded or three-dimensional mask objects, which is taken as done by the
  detector: \<open>_decode_mask\<close> sees an absent mask or a two-dimensional array.
\<close>

record inpainter =
  inference_size :: "(nat \<times> nat) option"
  score_threshold :: real
  target_labels :: "string set"
  inpaint_radius :: int
  inpaint_flags :: int
  class_names :: "string list"

fun str_nat :: "nat \<Rightarrow> string" where
  "str_nat n = (if n < 10 then [char_of (48 + n)]
                else str_nat (n div 10) @ [char_of (48 + n mod 10)])"

definition str_int :: "int \<Rightarrow> string" where
  \<comment> \<open>Python's \<open>str\<close> of an int\<close>
  "str_int i = (if i < 0 then CHR ''-'' # str_nat (nat (- i)) else str_nat (nat i))"

definition label_name :: "'a inpainter_scheme \<Rightarrow> int \<Rightarrow> string" where
  "label_name self label_id =
     (if 0 \<le> label_id \<and> label_id < int (length (class_names self))
      then class_names self ! nat label_id
      else str_int label_id)"

definition decode_mask :: "mask option \<Rightarrow> mask" where
  \<comment> \<open>\<open>_decode_mask\<close>: an absent or empty mask is the array of shape (0, 0)\<close>
  "decode_mask mask_obj =
     (case mask_obj of
        None \<Rightarrow> []
      | Some m \<Rightarrow> if height m * width m = 0 then [] else m)"

fun build_loop ::
  "env \<Rightarrow> 'a inpainter_scheme \<Rightarrow> nat \<times> nat \<Rightarrow> mask option list \<Rightarrow> real list option \<Rightarrow>
   nat \<Rightarrow> int list \<Rightarrow> mask \<Rightarrow> error + mask" where
  "build_loop e self target_shape masks scores idx [] combined = Inr combined"
| "build_loop e self target_shape masks scores idx (label_id # rest) combined =
     (if target_labels self \<noteq> {} \<and> label_name self label_id \<notin> target_labels self
      then build_loop e self target_shape masks scores (idx + 1) rest combined
      else if (case scores of None \<Rightarrow> False
               | Some sc \<Rightarrow> idx < length sc \<and> sc ! idx < score_threshold self)
      then build_loop e self target_shape masks scores (idx + 1) rest combined
      else if length masks \<le> idx then Inl IndexError
      else
        let m = decode_mask (masks ! idx) in
        if height m * width m = 0
        then build_loop e self target_shape masks scores (idx + 1) rest combined
        else
          let m' = (if shape2 m \<noteq> target_shape
                    then gt0 (cv_resize_nearest e (astype_u8 m) (snd target_shape, fst target_shape))
                    else m)
          in build_loop e self target_shape masks scores (idx + 1) rest (logical_or combined m'))"

definition build_combined_mask ::
  "env \<Rightarrow> 'a inpainter_scheme \<Rightarrow> preds \<Rightarrow> nat \<times> nat \<Rightarrow> error + mask" where
  "build_combined_mask e self p target_shape =
     (if p_masks p = [] then Inr (zeros target_shape)
      else build_loop e self target_shape (p_masks p) (p_scores p) 0 (p_labels p)
             (zeros target_shape))"

text \<open>
  \<open>RTMDetInpainter.inpaint\<close>. Every return statement of the method either copies the input
  frame or calls \<open>cv2.inpaint\<close> on the input frame with a mask: \<open>inpaint_call\<close> computes
  which, and \<open>inpaint\<close> performs it.
\<close>

datatype fill_call = ReturnCopy | ReturnInpaint u8mask

definition prior_bounds :: "nat \<Rightarrow> nat \<Rightarrow> u8mask \<Rightarrow> int \<times> int \<times> int \<times> int" where
  \<comment> \<open>lines 84 to 89: the box of the hint mask's set pixels, grown by the margin, clamped\<close>
  "prior_bounds original_h original_w prior =
     (let ys = map (int \<circ> fst) (nonzero (gt0 prior));
          xs = map (int \<circ> snd) (nonzero (gt0 prior));
          margin = max (int (min original_w original_h div 20)) 16;
          y0 = max (Min (set ys) - margin) 0;
          y1 = min (Max (set ys) + margin) (int original_h - 1);
          x0 = max (Min (set xs) - margin) 0;
          x1 = min (Max (set xs) + margin) (int original_w - 1)
      in (y0, y1, x0, x1))"

definition prepare_prior ::
  "env \<Rightarrow> frame \<Rightarrow> u8mask option \<Rightarrow>
   u8mask option \<times> (nat \<times> nat \<times> nat \<times> nat) option \<times> frame \<times> u8mask option" where
  \<comment> \<open>lines 74 to 95: (prior\_mask, crop\_bounds, working, prior\_roi\_mask)\<close>
  "prepare_prior e image_bgr prior_mask =
     (let original_h = height image_bgr; original_w = width image_bgr in
      case prior_mask of
        None \<Rightarrow> (None, None, image_bgr, None)
      | Some pm0 \<Rightarrow>
          let pm = (if shape2 pm0 \<noteq> (original_h, original_w)
                    then cv_resize_nearest e pm0 (original_w, original_h) else pm0)
          in if any2 (gt0 pm)
             then
               (case prior_bounds original_h original_w pm of (y0, y1, x0, x1) \<Rightarrow>
                  if y1 - y0 > 2 \<and> x1 - x0 > 2
                  then (Some pm,
                        Some (nat y0, nat (y1 + 1), nat x0, nat (x1 + 1)),
                        slice2 (nat y0) (nat (y1 + 1)) (nat x0) (nat (x1 + 1)) image_bgr,
                        Some (slice2 (nat y0) (nat (y1 + 1)) (nat x0) (nat (x1 + 1)) pm))
                  else (Some pm, None, image_bgr, None))
             else (None, None, image_bgr, None))"

definition fallback :: "u8mask option \<Rightarrow> fill_call" where
  \<comment> \<open>lines 108 to 110 and 117 to 119\<close>
  "fallback prior = (case prior of Some pm \<Rightarrow> ReturnInpaint pm | None \<Rightarrow> ReturnCopy)"

definition union_masks ::
  "env \<Rightarrow> nat \<times> nat \<Rightarrow> u8mask option \<Rightarrow> (nat \<times> nat \<times> nat \<times> nat) option \<Rightarrow>
   u8mask option \<Rightarrow> mask \<Rightarrow> mask" where
  \<comment> \<open>lines 128 to 153, for the combined mask at the working image's resolution\<close>
  "union_masks e original prior crop_bounds prior_roi_mask combined_mask =
     (let union_mask =
            (case prior_roi_mask of
               Some roi \<Rightarrow> logical_or combined_mask (gt0 roi)
             | None \<Rightarrow>
                 (case prior of
                    Some pm \<Rightarrow>
                      (case crop_bounds of
                         Some (y0, y1, x0, x1) \<Rightarrow>
                           logical_or (assign_slice2 y0 x0 combined_mask (zeros original)) (gt0 pm)
                       | None \<Rightarrow> gt0 pm)
                  | None \<Rightarrow> combined_mask));
          union_mask =
            (case crop_bounds of
               Some (y0, y1, x0, x1) \<Rightarrow>
                 if shape2 union_mask \<noteq> original
                 then assign_slice2 y0 x0 union_mask (zeros original) else union_mask
             | None \<Rightarrow> union_mask);
          union_mask =
            (case prior of
               Some pm \<Rightarrow>
                 if shape2 union_mask \<noteq> shape2 pm
                 then gt0 (cv_resize_nearest e (astype_u8 union_mask) (width pm, height pm))
                 else union_mask
             | None \<Rightarrow> union_mask)
      in union_mask)"

definition working_input ::
  "env \<Rightarrow> 'a inpainter_scheme \<Rightarrow> nat \<Rightarrow> nat \<Rightarrow> frame \<Rightarrow> frame \<times> nat \<times> nat" where
  \<comment> \<open>lines 97 to 102: (working\_resized, infer\_w, infer\_h)\<close>
  "working_input e self original_w original_h working =
     (case inference_size self of
        Some (iw, ih) \<Rightarrow>
          if (original_w, original_h) \<noteq> (iw, ih)
          then (cv_resize_linear e working (iw, ih), iw, ih)
          else (working, width working, height working)
      | None \<Rightarrow> (working, width working, height working))"

definition inpaint_call ::
  "env \<Rightarrow> 'a inpainter_scheme \<Rightarrow> frame option \<Rightarrow> u8mask option \<Rightarrow> error + fill_call" where
  "inpaint_call e self img prior_mask =
     (case img of
        None \<Rightarrow> Inl ValueError
      | Some image_bgr \<Rightarrow>
          if channels image_bgr \<noteq> 3 then Inl ValueError
          else
            let original_h = height image_bgr; original_w = width image_bgr in
            case prepare_prior e image_bgr prior_mask of
              (prior, crop_bounds, working, prior_roi_mask) \<Rightarrow>
                let (working_resized, infer_w, infer_h) =
                      working_input e self original_w original_h working
                in
                case inferencer e (cvtColor_BGR2RGB working_resized) of
                  Inl err \<Rightarrow> Inl err
                | Inr None \<Rightarrow> Inr (fallback prior)
                | Inr (Some []) \<Rightarrow> Inr (fallback prior)
                | Inr (Some (p # _)) \<Rightarrow>
                    (case build_combined_mask e self p (infer_h, infer_w) of
                       Inl err \<Rightarrow> Inl err
                     | Inr combined_mask \<Rightarrow>
                         if \<not> any2 combined_mask then Inr (fallback prior)
                         else
                           let combined_mask =
                                 (if (infer_h, infer_w) \<noteq> shape2 working
                                  then gt0 (cv_resize_nearest e (astype_u8 combined_mask)
                                              (width working, height working))
                                  else combined_mask);
                               union_mask =
                                 union_masks e (original_h, original_w) prior crop_bounds
                                   prior_roi_mask combined_mask
                           in Inr (ReturnInpaint (times255 (astype_u8 union_mask)))))"

definition perform :: "env \<Rightarrow> 'a inpainter_scheme \<Rightarrow> frame \<Rightarrow> fill_call \<Rightarrow> frame" where
  "perform e self image_bgr c =
     (case c of
        ReturnCopy \<Rightarrow> image_bgr
      | ReturnInpaint m \<Rightarrow> cv_inpaint e image_bgr m (inpaint_radius self) (inpaint_flags self))"

definition inpaint ::
  "env \<Rightarrow> 'a inpainter_scheme \<Rightarrow> frame option \<Rightarrow> u8mask option \<Rightarrow> error + frame" where
  "inpaint e self img prior_mask =
     (case inpaint_call e self img prior_mask of
        Inl err \<Rightarrow> Inl err
      | Inr c \<Rightarrow> Inr (perform e self (the img) c))"

section \<open>rtmdet\_inpainter\_stable.py: RTMDetInpainterStable\<close>

text \<open>
  The subclass adds the postprocessing options and the state of the temporal persistence:
  the remembered mask, the number of frames it may still be reused for, and the debug record
  of the last call.
\<close>

record debug_info =
  det_mask :: u8mask
  final_mask :: u8mask
  inpaint_mask :: u8mask
  bbox :: "int list"

record inpainter_stable = inpainter +
  mask_dilate :: int
  mask_close :: int
  min_area :: int
  keep_frames :: int
  roi_margin :: int
  prev_mask :: "mask option"
  prev_ttl :: int
  last_debug :: "debug_info option"

definition stable_init ::
  "inpainter \<Rightarrow> int \<Rightarrow> int \<Rightarrow> int \<Rightarrow> int \<Rightarrow> int \<Rightarrow> inpainter_stable" where
  \<comment> \<open>\<open>__init__\<close>, lines 43 to 61: the base object and the five new options\<close>
  "stable_init base dilate_arg close_arg min_area_arg keep_frames_arg roi_margin_arg =
     \<lparr>inference_size = inference_size base, score_threshold = score_threshold base,
      target_labels = target_labels base, inpaint_radius = inpaint_radius base,
      inpaint_flags = inpaint_flags base, class_names = class_names base,
      mask_dilate = dilate_arg, mask_close = close_arg, min_area = min_area_arg,
      keep_frames = keep_frames_arg, roi_margin = max 0 roi_margin_arg,
      prev_mask = None, prev_ttl = 0, last_debug = None\<rparr>"

definition labels_eq :: "nat list list \<Rightarrow> nat \<Rightarrow> mask" where
  \<comment> \<open>\<open>labels == i\<close>\<close>
  "labels_eq labels i = map (map (\<lambda>l. l = i)) labels"

definition filter_small_components :: "env \<Rightarrow> mask \<Rightarrow> int \<Rightarrow> mask" where
  \<comment> \<open>\<open>_filter_small_components\<close>; \<open>area ! i\<close> is \<open>stats[i, cv2.CC_STAT_AREA]\<close>\<close>
  "filter_small_components e m min_area_arg =
     (if min_area_arg \<le> 1 then m
      else
        let mu8 = astype_u8 m in
        if height mu8 * width mu8 = 0 then m
        else
          (case cv_connectedComponentsWithStats e (astype_u8 (gt0 mu8)) of
             (num, labels, area) \<Rightarrow>
               if num \<le> 1 then gt0 mu8
               else fold (\<lambda>i keep. if min_area_arg \<le> int (area ! i)
                                    then logical_or keep (labels_eq labels i) else keep)
                         [1..<num] (zeros (shape2 mu8))))"

definition stable_working ::
  "env \<Rightarrow> 'a inpainter_stable_scheme \<Rightarrow> frame \<Rightarrow> frame \<times> nat \<times> nat" where
  \<comment> \<open>lines 67 to 74: (working, infer\_w, infer\_h)\<close>
  "stable_working e self image_bgr =
     (let h = height image_bgr; w = width image_bgr in
      case inference_size self of
        Some (iw, ih) \<Rightarrow>
          if (w, h) \<noteq> (iw, ih) then (cv_resize_linear e image_bgr (iw, ih), iw, ih)
          else (image_bgr, w, h)
      | None \<Rightarrow> (image_bgr, w, h))"

definition detect_mask :: "env \<Rightarrow> 'a inpainter_stable_scheme \<Rightarrow> frame \<Rightarrow> error + mask" where
  \<comment> \<open>lines 67 to 85: inference at the working resolution, the detection mask at frame size\<close>
  "detect_mask e self image_bgr =
     (let h = height image_bgr; w = width image_bgr;
          (working, infer_w, infer_h) = stable_working e self image_bgr
      in
      case inferencer e (cvtColor_BGR2RGB working) of
        Inl err \<Rightarrow> Inl err
      | Inr result \<Rightarrow>
          (case (case result of
                   Some (p # _) \<Rightarrow> build_combined_mask e self p (infer_h, infer_w)
                 | _ \<Rightarrow> Inr (zeros (infer_h, infer_w))) of
             Inl err \<Rightarrow> Inl err
           | Inr dm \<Rightarrow>
               Inr (if (infer_h, infer_w) \<noteq> (h, w)
                    then gt0 (cv_resize_nearest e (astype_u8 dm) (w, h)) else dm)))"

definition temporal_persistence ::
  "'a inpainter_stable_scheme \<Rightarrow> mask \<Rightarrow> mask \<times> 'a inpainter_stable_scheme" where
  \<comment> \<open>lines 89 to 95: the mask used for this frame and the updated object\<close>
  "temporal_persistence self m =
     (if \<not> any2 m \<and> prev_mask self \<noteq> None \<and> prev_ttl self > 0
      then (the (prev_mask self), self\<lparr>prev_ttl := prev_ttl self - 1\<rparr>)
      else if any2 m
      then (m, self\<lparr>prev_mask := Some m, prev_ttl := max 0 (keep_frames self)\<rparr>)
      else (m, self))"

definition morphology :: "env \<Rightarrow> 'a inpainter_stable_scheme \<Rightarrow> mask \<Rightarrow> mask" where
  \<comment> \<open>lines 101 to 110: close the holes, then dilate the edges\<close>
  "morphology e self m =
     (let k = max (mask_close self) (mask_dilate self) in
      if k > 0
      then
        let kernel = cv_getStructuringElement e (k * 2 + 1, k * 2 + 1);
            mu8 = times255 (astype_u8 m);
            mu8 = (if mask_close self > 0 then cv_morph_close e mu8 kernel else mu8);
            mu8 = (if mask_dilate self > 0 then cv_dilate e mu8 kernel else mu8)
        in gt0 mu8
      else m)"

definition postprocess :: "env \<Rightarrow> 'a inpainter_stable_scheme \<Rightarrow> mask \<Rightarrow> mask" where
  \<comment> \<open>lines 97 to 110: remove the tiny blobs, then the morphology\<close>
  "postprocess e self m =
     morphology e self
       (if min_area self > 1 then filter_small_components e m (min_area self) else m)"

definition roi_bounds :: "'a inpainter_stable_scheme \<Rightarrow> nat \<Rightarrow> nat \<Rightarrow> mask \<Rightarrow> int \<times> int \<times> int \<times> int" where
  \<comment> \<open>lines 117 to 122, for a mask with a set pixel\<close>
  "roi_bounds self h w m =
     (let ys = map (int \<circ> fst) (nonzero m);
          xs = map (int \<circ> snd) (nonzero m);
          margin = roi_margin self;
          y0 = max (Min (set ys) - margin) 0;
          y1 = min (Max (set ys) + margin) (int h - 1);
          x0 = max (Min (set xs) - margin) 0;
          x1 = min (Max (set xs) + margin) (int w - 1)
      in (y0, y1, x0, x1))"

text \<open>
  The fill stage is the one place where a mask that was not computed from the current frame
  meets the frame: the remembered mask has the size of the frame that produced it.
  \<open>cv2.inpaint\<close> raises \<open>cv2.error\<close> unless its mask has the height and width of its image;
  \<open>cv2_inpaint\<close> is the call with that check, and the exception leaves the method at the
  call, after the persistence block and before the debug record is written.
\<close>

definition cv2_inpaint :: "env \<Rightarrow> frame \<Rightarrow> u8mask \<Rightarrow> int \<Rightarrow> int \<Rightarrow> error + frame" where
  "cv2_inpaint e src m radius flags =
     (if shape2 m = shape2 src then Inr (cv_inpaint e src m radius flags) else Inl CvError)"

definition fill_roi ::
  "env \<Rightarrow> 'a inpainter_stable_scheme \<Rightarrow> frame \<Rightarrow> mask \<Rightarrow> error + frame \<times> int list" where
  \<comment> \<open>lines 112 to 133: the repaired frame and the bbox of the debug record\<close>
  "fill_roi e self image_bgr m =
     (let h = height image_bgr; w = width image_bgr;
          inpaint_mask = times255 (astype_u8 m) in
      if \<not> any2 m then Inr (image_bgr, [0, 0, 0, 0])
      else
        (case roi_bounds self h w m of (y0, y1, x0, x1) \<Rightarrow>
           if y1 \<le> y0 \<or> x1 \<le> x0
           then
             (case cv2_inpaint e image_bgr inpaint_mask (inpaint_radius self) (inpaint_flags self) of
                Inl err \<Rightarrow> Inl err
              | Inr repaired \<Rightarrow> Inr (repaired, [0, int h - 1, 0, int w - 1]))
           else
             let output = image_bgr;
                 roi_img = slice2 (nat y0) (nat (y1 + 1)) (nat x0) (nat (x1 + 1)) output;
                 roi_mask = slice2 (nat y0) (nat (y1 + 1)) (nat x0) (nat (x1 + 1)) inpaint_mask
             in
             (case cv2_inpaint e roi_img roi_mask (inpaint_radius self) (inpaint_flags self) of
                Inl err \<Rightarrow> Inl err
              | Inr roi_result \<Rightarrow>
                  Inr (assign_slice2 (nat y0) (nat x0) roi_result output, [y0, y1, x0, x1]))))"

definition stable_masks ::
  "env \<Rightarrow> 'a inpainter_stable_scheme \<Rightarrow> frame option \<Rightarrow>
   (error + mask \<times> mask) \<times> 'a inpainter_stable_scheme" where
  \<comment> \<open>lines 64 to 110: the detection mask, the final mask, and the object after line 95\<close>
  "stable_masks e self img =
     (case img of
        None \<Rightarrow> (Inl ValueError, self)
      | Some image_bgr \<Rightarrow>
          if channels image_bgr \<noteq> 3 then (Inl ValueError, self)
          else
            (case detect_mask e self image_bgr of
               Inl err \<Rightarrow> (Inl err, self)
             | Inr dm \<Rightarrow>
                 (case temporal_persistence self dm of
                    (m, self') \<Rightarrow> (Inr (dm, postprocess e self' m), self'))))"

definition debug_of :: "mask \<Rightarrow> mask \<Rightarrow> int list \<Rightarrow> debug_info" where
  \<comment> \<open>lines 135 to 140\<close>
  "debug_of dm m bb =
     \<lparr>det_mask = astype_u8 dm, final_mask = astype_u8 m,
      inpaint_mask = times255 (astype_u8 m), bbox = bb\<rparr>"

definition inpaint_stable ::
  "env \<Rightarrow> 'a inpainter_stable_scheme \<Rightarrow> frame option \<Rightarrow> u8mask option \<Rightarrow>
   (error + frame) \<times> 'a inpainter_stable_scheme" where
  \<comment> \<open>\<open>RTMDetInpainterStable.inpaint\<close>: the result or the exception, and the object afterwards\<close>
  "inpaint_stable e self img prior_mask =
     (case stable_masks e self img of
        (Inl err, self') \<Rightarrow> (Inl err, self')
      | (Inr (dm, m), self') \<Rightarrow>
          (case fill_roi e self' (the img) m of
             Inl err \<Rightarrow> (Inl err, self')
           | Inr (repaired, bb) \<Rightarrow>
               (Inr repaired, self'\<lparr>last_debug := Some (debug_of dm m bb)\<rparr>)))"

section \<open>The arrays of a call\<close>

text \<open>
  Whether a call writes into the caller's frame depends on which array each name refers to.
  For that question the frames live in a store, a list of arrays whose addresses are the
  indices, and the methods take the address of \<open>image_bgr\<close>. \<open>image_bgr.copy()\<close> and
  \<open>cv2.inpaint\<close> return a new array (here: appended to the store); a slice of \<open>output\<close> is a
  view, so that \<open>output[y0:y1+1, x0:x1+1] = roi_result\<close> writes the array \<open>output\<close> names.
  \<open>fill_roi_mem\<close> is lines 112 to 133 and \<open>perform_mem\<close> the return statements of
  \<open>RTMDetInpainter.inpaint\<close> on the store; the masks are computed from the frame's value as
  before. The shape of a frame is here the list of the channel counts of every pixel of every
  row, and OpenCV's fill is asked to return a frame of the shape of its input.
\<close>

type_synonym store = "frame list"

definition alloc :: "store \<Rightarrow> frame \<Rightarrow> store \<times> nat" where
  "alloc st v = (st @ [v], length st)"

definition fill_roi_mem ::
  "env \<Rightarrow> 'a inpainter_stable_scheme \<Rightarrow> store \<Rightarrow> nat \<Rightarrow> mask \<Rightarrow>
   store \<times> (error + nat \<times> int list)" where
  "fill_roi_mem e self st image_bgr m =
     (let h = height (st ! image_bgr); w = width (st ! image_bgr);
          inpaint_mask = times255 (astype_u8 m) in
      if \<not> any2 m
      then (case alloc st (st ! image_bgr) of (st1, repaired) \<Rightarrow>
              (st1, Inr (repaired, [0, 0, 0, 0])))
      else
        (case roi_bounds self h w m of (y0, y1, x0, x1) \<Rightarrow>
           if y1 \<le> y0 \<or> x1 \<le> x0
           then
             (case cv2_inpaint e (st ! image_bgr) inpaint_mask
                     (inpaint_radius self) (inpaint_flags self) of
                Inl err \<Rightarrow> (st, Inl err)
              | Inr v \<Rightarrow>
                  (case alloc st v of (st1, repaired) \<Rightarrow>
                     (st1, Inr (repaired, [0, int h - 1, 0, int w - 1]))))
           else
             (case alloc st (st ! image_bgr) of (st1, output) \<Rightarrow>
                let roi_img = slice2 (nat y0) (nat (y1 + 1)) (nat x0) (nat (x1 + 1)) (st1 ! output);
                    roi_mask = slice2 (nat y0) (nat (y1 + 1)) (nat x0) (nat (x1 + 1)) inpaint_mask
                in case cv2_inpaint e roi_img roi_mask (inpaint_radius self) (inpaint_flags self) of
                     Inl err \<Rightarrow> (st1, Inl err)
                   | Inr v \<Rightarrow>
                       (case alloc st1 v of (st2, roi_result) \<Rightarrow>
                          (st2[output := assign_slice2 (nat y0) (nat x0) (st2 ! roi_result)
                                           (st2 ! output)],
                           Inr (output, [y0, y1, x0, x1]))))))"

definition inpaint_stable_mem ::
  "env \<Rightarrow> 'a inpainter_stable_scheme \<Rightarrow> store \<Rightarrow> nat option \<Rightarrow> u8mask option \<Rightarrow>
   (error + nat) \<times> 'a inpainter_stable_scheme \<times> store" where
  "inpaint_stable_mem e self st img prior_mask =
     (case stable_masks e self (map_option (\<lambda>a. st ! a) img) of
        (Inl err, self') \<Rightarrow> (Inl err, self', st)
      | (Inr (dm, m), self') \<Rightarrow>
          (case fill_roi_mem e self' st (the img) m of
             (st', Inl err) \<Rightarrow> (Inl err, self', st')
           | (st', Inr (repaired, bb)) \<Rightarrow>
               (Inr repaired, self'\<lparr>last_debug := Some (debug_of dm m bb)\<rparr>, st')))"

definition perform_mem ::
  "env \<Rightarrow> 'a inpainter_scheme \<Rightarrow> store \<Rightarrow> nat \<Rightarrow> fill_call \<Rightarrow> store \<times> nat" where
  "perform_mem e self st image_bgr c =
     (case c of
        ReturnCopy \<Rightarrow> alloc st (st ! image_bgr)
      | ReturnInpaint m \<Rightarrow>
          alloc st (cv_inpaint e (st ! image_bgr) m (inpaint_radius self) (inpaint_flags self)))"

definition inpaint_mem ::
  "env \<Rightarrow> 'a inpainter_scheme \<Rightarrow> store \<Rightarrow> nat option \<Rightarrow> u8mask option \<Rightarrow>
   (error + nat) \<times> store" where
  "inpaint_mem e self st img prior_mask =
     (case inpaint_call e self (map_option (\<lambda>a. st ! a) img) prior_mask of
        Inl err \<Rightarrow> (Inl err, st)
      | Inr c \<Rightarrow> (case perform_mem e self st (the img) c of (st', r) \<Rightarrow> (Inr r, st')))"

definition shape_of :: "frame \<Rightarrow> nat list list" where
  "shape_of f = map (map length) f"

definition inpaint_keeps_shape :: "env \<Rightarrow> bool" where
  "inpaint_keeps_shape e = (\<forall>img m r f. shape_of (cv_inpaint e img m r f) = shape_of img)"

section \<open>The TCP servers\<close>

text \<open>
  One connection is modelled by the bytes the peer sends before it closes, and by the bytes
  the handler has sent back. \<open>recv_exact\<close> takes the next \<open>n\<close> bytes, or raises
  \<open>ConnectionError\<close> (here \<open>None\<close>) when the peer closes first. Lengths travel as four
  bytes, big-endian; \<open>struct.pack\<close> raises \<open>struct.error\<close> (here \<open>None\<close>) on a length that
  does not fit. The debug dump of the RTMDet-only server writes files and does not touch the
  connection or the inpainter; it is left out.
\<close>

definition recv_exact :: "byte list \<Rightarrow> nat \<Rightarrow> (byte list \<times> byte list) option" where
  "recv_exact conn n = (if length conn < n then None else Some (take n conn, drop n conn))"

definition unpack_u32 :: "byte list \<Rightarrow> nat" where
  \<comment> \<open>\<open>struct.unpack("!I", b)\<close> on four bytes\<close>
  "unpack_u32 bs = foldl (\<lambda>acc b. acc * 256 + unat b) 0 bs"

definition be32 :: "nat \<Rightarrow> byte list" where
  \<comment> \<open>the four bytes of a number below \<open>2 ^ 32\<close>, most significant first\<close>
  "be32 n = [of_nat (n div 2 ^ 24), of_nat (n div 2 ^ 16), of_nat (n div 2 ^ 8), of_nat n]"

definition pack_u32 :: "nat \<Rightarrow> byte list option" where
  \<comment> \<open>\<open>struct.pack("!I", n)\<close>\<close>
  "pack_u32 n = (if n < 2 ^ 32 then Some (be32 n) else None)"

definition send_frame :: "byte list \<Rightarrow> byte list option" where
  \<comment> \<open>the bytes \<open>send_frame\<close> writes to the connection\<close>
  "send_frame payload = map_option (\<lambda>header. header @ payload) (pack_u32 (length payload))"

definition decode_image :: "env \<Rightarrow> byte list \<Rightarrow> frame option" where
  "decode_image e data = (if data = [] then None else cv_imdecode e data)"

definition encode_image :: "env \<Rightarrow> frame \<Rightarrow> int \<Rightarrow> byte list option" where
  "encode_image e img quality = cv_imencode e img quality"

datatype session_end = InvalidLength | Disconnected | StructError

subsection \<open>tcp\_inpaint\_server\_rtmdet\_only.py\<close>

definition serve_frame ::
  "env \<Rightarrow> int \<Rightarrow> inpainter_stable \<Rightarrow> byte list \<Rightarrow> byte list option \<times> inpainter_stable" where
  \<comment> \<open>lines 148 to 181: what is sent for one received image, and the inpainter afterwards\<close>
  "serve_frame e jpeg_quality inp payload =
     (case decode_image e payload of
        None \<Rightarrow> (send_frame payload, inp)
      | Some img \<Rightarrow>
          (case (case inpaint_stable e inp (Some img) None of
                   (Inr processed, inp') \<Rightarrow> (processed, inp')
                 | (Inl exc, inp') \<Rightarrow> (img, inp')) of
             (processed, inp') \<Rightarrow>
               (case encode_image e processed jpeg_quality of
                  None \<Rightarrow> (send_frame payload, inp')
                | Some encoded \<Rightarrow> (send_frame encoded, inp'))))"

function handle_client ::
  "env \<Rightarrow> int \<Rightarrow> inpainter_stable \<Rightarrow> byte list \<Rightarrow> byte list \<times> session_end \<times> inpainter_stable" where
  "handle_client e jpeg_quality inp conn =
     (case recv_exact conn 8 of
        None \<Rightarrow> ([], Disconnected, inp)
      | Some (header, conn1) \<Rightarrow>
          let img_length = unpack_u32 (take 4 header);
              mask_length = unpack_u32 (drop 4 header)
          in if img_length \<le> 0 then ([], InvalidLength, inp)
             else
               (case recv_exact conn1 img_length of
                  None \<Rightarrow> ([], Disconnected, inp)
                | Some (payload, conn2) \<Rightarrow>
                    (case (if mask_length > 0 then recv_exact conn2 mask_length
                           else Some ([], conn2)) of
                       None \<Rightarrow> ([], Disconnected, inp)
                     | Some (discarded, conn3) \<Rightarrow>
                         (case serve_frame e jpeg_quality inp payload of
                            (None, inp') \<Rightarrow> ([], StructError, inp')
                          | (Some sent, inp') \<Rightarrow>
                              (case handle_client e jpeg_quality inp' conn3 of
                                 (out, fin, inp'') \<Rightarrow> (sent @ out, fin, inp''))))))"
  by pat_completeness auto
termination
  by (relation "measure (\<lambda>(e, q, inp, conn). length conn)")
     (auto simp: recv_exact_def split: if_splits)

declare handle_client.simps [simp del]

subsection \<open>Quest-PC\_Server.py\<close>

definition serve_frame_quest ::
  "env \<Rightarrow> int \<Rightarrow> inpainter \<Rightarrow> byte list \<Rightarrow> byte list option" where
  \<comment> \<open>lines 96 to 115\<close>
  "serve_frame_quest e jpeg_quality inp payload =
     (case decode_image e payload of
        None \<Rightarrow> send_frame payload
      | Some img \<Rightarrow>
          (case encode_image e
                  (case inpaint e inp (Some img) None of
                     Inr processed \<Rightarrow> processed
                   | Inl exc \<Rightarrow> img)
                  jpeg_quality of
             None \<Rightarrow> send_frame payload
           | Some encoded \<Rightarrow> send_frame encoded))"

function handle_client_quest ::
  "env \<Rightarrow> int \<Rightarrow> inpainter \<Rightarrow> byte list \<Rightarrow> byte list \<times> session_end" where
  "handle_client_quest e jpeg_quality inp conn =
     (case recv_exact conn 4 of
        None \<Rightarrow> ([], Disconnected)
      | Some (header, conn1) \<Rightarrow>
          let len = unpack_u32 header
          in if len \<le> 0 then ([], InvalidLength)
             else
               (case recv_exact conn1 len of
                  None \<Rightarrow> ([], Disconnected)
                | Some (payload, conn2) \<Rightarrow>
                    (case serve_frame_quest e jpeg_quality inp payload of
                       None \<Rightarrow> ([], StructError)
                     | Some sent \<Rightarrow>
                         (case handle_client_quest e jpeg_quality inp conn2 of
                            (out, fin) \<Rightarrow> (sent @ out, fin)))))"
  by pat_completeness auto
termination
  by (relation "measure (\<lambda>(e, q, inp, conn). length conn)")
     (auto simp: recv_exact_def split: if_splits)

declare handle_client_quest.simps [simp del]

subsection \<open>What a client sends\<close>

text \<open>
  A request of the RTMDet-only server is the image length and the mask length, four bytes
  each, then the image bytes, then the mask bytes; a request of the Quest server is the
  image length and the image bytes. \<open>then_continue\<close> puts the bytes sent for one request in
  front of what the rest of the session sends.
\<close>

definition request :: "byte list \<Rightarrow> byte list \<Rightarrow> byte list" where
  "request payload mask_bytes =
     be32 (length payload) @ be32 (length mask_bytes) @ payload @ mask_bytes"

definition request_quest :: "byte list \<Rightarrow> byte list" where
  "request_quest payload = be32 (length payload) @ payload"

definition then_continue ::
  "byte list \<Rightarrow> byte list \<times> 'a \<Rightarrow> byte list \<times> 'a" where
  "then_continue sent r = (sent @ fst r, snd r)"

section \<open>Connected components\<close>

text \<open>
  The notions claim C9 is stated in: the set pixels of a mask, the 8-neighbourhood, the
  components it generates on the set pixels, and what a result of
  \<open>cv2.connectedComponentsWithStats\<close> at connectivity 8 is for a mask: a label array of the
  mask's shape that is zero exactly on the background, equal on two set pixels exactly when
  they are connected, with labels below \<open>num\<close>, and the pixel count of every label.
\<close>

definition fg :: "mask \<Rightarrow> (nat \<times> nat) set" where
  "fg m = set (nonzero m)"

definition adjacent8 :: "nat \<times> nat \<Rightarrow> nat \<times> nat \<Rightarrow> bool" where
  "adjacent8 p q =
     (p \<noteq> q \<and> fst p \<le> fst q + 1 \<and> fst q \<le> fst p + 1 \<and> snd p \<le> snd q + 1 \<and> snd q \<le> snd p + 1)"

definition connected8 :: "mask \<Rightarrow> ((nat \<times> nat) \<times> (nat \<times> nat)) set" where
  "connected8 m = {(p, q). p \<in> fg m \<and> q \<in> fg m \<and> adjacent8 p q}\<^sup>*"

definition component :: "mask \<Rightarrow> nat \<times> nat \<Rightarrow> (nat \<times> nat) set" where
  "component m p = {q. (p, q) \<in> connected8 m}"

definition label_at :: "nat list list \<Rightarrow> nat \<times> nat \<Rightarrow> nat" where
  "label_at labels p = labels ! fst p ! snd p"

definition cc_labelling :: "mask \<Rightarrow> nat \<times> nat list list \<times> nat list \<Rightarrow> bool" where
  "cc_labelling m r =
     (case r of (num, labels, area) \<Rightarrow>
        map length labels = map length m \<and>
        (\<forall>y x. y < length m \<and> x < length (m ! y) \<longrightarrow>
           (label_at labels (y, x) = 0 \<longleftrightarrow> \<not> m ! y ! x) \<and> label_at labels (y, x) < num) \<and>
        (\<forall>p \<in> fg m. \<forall>q \<in> fg m.
           label_at labels p = label_at labels q \<longleftrightarrow> (p, q) \<in> connected8 m) \<and>
        length area = num \<and>
        (\<forall>i < num. area ! i =
           card {(y, x). y < length labels \<and> x < length (labels ! y) \<and> label_at labels (y, x) = i}))"

section \<open>What the theorems ask of OpenCV\<close>

text \<open>
  Two facts about OpenCV that the pipeline relies on when a frame has nothing to repair:
  the labelling of an all-zero image gives no pixel a positive label, and closing or dilating
  an all-zero image leaves it all-zero.
\<close>

definition cc_background_zero :: "env \<Rightarrow> bool" where
  "cc_background_zero e =
     (\<forall>b. \<not> any2 (gt0 b) \<longrightarrow>
        (case cv_connectedComponentsWithStats e b of
           (num, labels, area) \<Rightarrow> \<forall>i. 0 < i \<longrightarrow> \<not> any2 (labels_eq labels i)))"

definition morph_keeps_empty :: "env \<Rightarrow> bool" where
  "morph_keeps_empty e =
     (\<forall>b k. \<not> any2 (gt0 b) \<longrightarrow>
        \<not> any2 (gt0 (cv_morph_close e b k)) \<and> \<not> any2 (gt0 (cv_dilate e b k)))"

section \<open>Stand-ins for the collaborators\<close>

text \<open>
  The concrete instances below run the pipeline with simple stand-ins: a detector that reports
  the white pixels of its input as one detection of class 0 with score 0.9 (and raises on a
  frame whose first pixel is (3, 2, 1)), a fill that blackens the masked pixels, a labelling
  that is right for images whose set pixels form at most one component, and a codec for
  frames of one pixel.
\<close>

definition demo_detector :: "frame \<Rightarrow> error + preds list option" where
  "demo_detector rgb =
     (case rgb of
        [] \<Rightarrow> Inr None
      | r # _ \<Rightarrow>
          if hd r = [3, 2, 1] then Inl InferenceError
          else Inr (Some [\<lparr>p_masks = [Some (map (map (\<lambda>p. p = [255, 255, 255])) rgb)],
                            p_labels = [0], p_scores = Some [9 / 10]\<rparr>]))"

definition demo_inpaint :: "frame \<Rightarrow> u8mask \<Rightarrow> int \<Rightarrow> int \<Rightarrow> frame" where
  "demo_inpaint img m radius flags =
     map (\<lambda>(y, row).
            map (\<lambda>(x, p). if y < length m \<and> x < length (m ! y) \<and> m ! y ! x \<noteq> 0
                          then map (\<lambda>c. 0) p else p)
                (enumerate 0 row))
         (enumerate 0 img)"

definition demo_cc :: "u8mask \<Rightarrow> nat \<times> nat list list \<times> nat list" where
  "demo_cc b =
     (let n = length (nonzero (gt0 b))
      in (if n = 0 then 1 else 2,
          map (map (\<lambda>v. if v \<noteq> 0 then 1 else 0)) b,
          [height b * width b - n, n]))"

definition demo_decode :: "byte list \<Rightarrow> frame option" where
  "demo_decode bs = (if length bs = 3 then Some [[bs]] else None)"

definition demo_encode :: "frame \<Rightarrow> int \<Rightarrow> byte list option" where
  "demo_encode f quality = (case f of [[p]] \<Rightarrow> if quality < 0 then None else Some p | _ \<Rightarrow> None)"

definition demo_env :: env where
  "demo_env =
     \<lparr>inferencer = demo_detector,
      cv_resize_linear = (\<lambda>img s. img),
      cv_resize_nearest = (\<lambda>m s. m),
      cv_connectedComponentsWithStats = demo_cc,
      cv_getStructuringElement = (\<lambda>s. [[1]]),
      cv_morph_close = (\<lambda>m k. m),
      cv_dilate = (\<lambda>m k. m),
      cv_inpaint = demo_inpaint,
      cv_imdecode = demo_decode,
      cv_imencode = demo_encode\<rparr>"

definition demo_base :: inpainter where
  "demo_base =
     \<lparr>inference_size = None, score_threshold = 3 / 10, target_labels = {''person''},
      inpaint_radius = 3, inpaint_flags = 1, class_names = [''person'']\<rparr>"

definition demo_stable :: "int \<Rightarrow> inpainter_stable" where
  \<comment> \<open>no morphology, the given minimum area, two frames of persistence, margin 20\<close>
  "demo_stable min_area_arg = stable_init demo_base 0 0 min_area_arg 2 20"

definition white :: frame where
  "white = [[[255, 255, 255]]]"

definition black :: frame where
  "black = [[[0, 0, 0]]]"

definition grey :: frame where
  "grey = [[[9, 9, 9]]]"

definition grey2 :: frame where
  "grey2 = replicate 2 (replicate 2 [9, 9, 9])"

definition frame5 :: frame where
  "frame5 = replicate 5 (replicate 5 [9, 9, 9])"

definition dot5 :: mask where
  "dot5 = (zeros (5, 5))[2 := (replicate 5 False)[3 := True]]"

definition frame2 :: frame where
  "frame2 = [[[9, 9, 9], [9, 9, 9]], [[9, 9, 9], [255, 255, 255]]]"

definition hint2 :: u8mask where
  "hint2 = [[255, 0], [0, 0]]"

definition frame5w :: frame where
  "frame5w = frame5[2 := (frame5 ! 2)[3 := [255, 255, 255]]]"

definition frame5b :: frame where
  "frame5b = frame5[2 := (frame5 ! 2)[3 := [0, 0, 0]]]"

text \<open>
  A row of 10 set pixels, a gap, and 100 set pixels, with its labelling.
\<close>

definition strip_mask :: mask where
  "strip_mask = [replicate 10 True @ False # replicate 100 True]"

definition strip_labels :: "nat list list" where
  "strip_labels = [replicate 10 1 @ 0 # replicate 100 2]"

definition strip_cc :: "nat \<times> nat list list \<times> nat list" where
  "strip_cc = (3, strip_labels, [1, 10, 100])"

definition strip_env :: env where
  "strip_env = demo_env\<lparr>cv_connectedComponentsWithStats := (\<lambda>b. strip_cc)\<rparr>"

section \<open>Properties\<close>

subsection \<open>Arrays\<close>

lemma any2_iff: "any2 m \<longleftrightarrow> (\<exists>r\<in>set m. True \<in> set r)"
  by (auto simp: any2_def list_ex_iff)

lemma gt0_astype_u8 [simp]: "gt0 (astype_u8 m) = m"
  by (simp add: gt0_def astype_u8_def map_idI)

lemma gt0_times255_astype_u8 [simp]: "gt0 (times255 (astype_u8 m)) = m"
  by (simp add: gt0_def astype_u8_def times255_def map_idI)

lemma any2_zeros [simp]: "\<not> any2 (zeros s)"
  by (auto simp: any2_iff zeros_def)

lemma any2_logical_or: "any2 (logical_or a b) \<Longrightarrow> any2 a \<or> any2 b"
  unfolding any2_iff logical_or_def
  by (auto simp: in_set_zip set_conv_nth) (metis nth_mem)+

subsection \<open>The methods read the options, not the persistence state\<close>

lemma build_loop_cong:
  assumes "target_labels s = target_labels s'" "class_names s = class_names s'"
    "score_threshold s = score_threshold s'"
  shows "build_loop e s ts masks scores idx labels combined
       = build_loop e s' ts masks scores idx labels combined"
proof (induction labels arbitrary: idx combined)
  case Nil
  show ?case by simp
next
  case (Cons a labels)
  show ?case
    unfolding build_loop.simps label_name_def assms Cons.IH by (rule refl)
qed

lemma build_combined_mask_cong:
  assumes "target_labels s = target_labels s'" "class_names s = class_names s'"
    "score_threshold s = score_threshold s'"
  shows "build_combined_mask e s p ts = build_combined_mask e s' p ts"
  unfolding build_combined_mask_def using build_loop_cong[OF assms] by simp

lemma detect_mask_cong:
  assumes "target_labels s = target_labels s'" "class_names s = class_names s'"
    "score_threshold s = score_threshold s'" "inference_size s = inference_size s'"
  shows "detect_mask e s img = detect_mask e s' img"
proof -
  have eq: "build_combined_mask e s = build_combined_mask e s'"
    by (intro ext) (rule build_combined_mask_cong[OF assms(1-3)])
  show ?thesis
    unfolding detect_mask_def stable_working_def assms(4) eq by (rule refl)
qed

lemma postprocess_cong:
  assumes "min_area s = min_area s'" "mask_close s = mask_close s'" "mask_dilate s = mask_dilate s'"
  shows "postprocess e s m = postprocess e s' m"
  unfolding postprocess_def morphology_def assms by (rule refl)

lemma fill_roi_cong:
  assumes "roi_margin s = roi_margin s'" "inpaint_radius s = inpaint_radius s'"
    "inpaint_flags s = inpaint_flags s'"
  shows "fill_roi e s img m = fill_roi e s' img m"
proof -
  have eq: "roi_bounds s = roi_bounds s'"
    using assms(1) by (intro ext) (simp add: roi_bounds_def)
  show ?thesis
    unfolding fill_roi_def eq assms(2,3) by (rule refl)
qed

lemma temporal_persistence_fields:
  "inference_size (snd (temporal_persistence s m)) = inference_size s"
  "target_labels (snd (temporal_persistence s m)) = target_labels s"
  "class_names (snd (temporal_persistence s m)) = class_names s"
  "score_threshold (snd (temporal_persistence s m)) = score_threshold s"
  "inpaint_radius (snd (temporal_persistence s m)) = inpaint_radius s"
  "inpaint_flags (snd (temporal_persistence s m)) = inpaint_flags s"
  "min_area (snd (temporal_persistence s m)) = min_area s"
  "mask_close (snd (temporal_persistence s m)) = mask_close s"
  "mask_dilate (snd (temporal_persistence s m)) = mask_dilate s"
  "roi_margin (snd (temporal_persistence s m)) = roi_margin s"
  "keep_frames (snd (temporal_persistence s m)) = keep_frames s"
  by (simp_all add: temporal_persistence_def)

subsection \<open>An empty mask stays empty through the postprocessing\<close>

lemma filter_small_components_empty:
  assumes "cc_background_zero e" "\<not> any2 m"
  shows "\<not> any2 (filter_small_components e m a)"
proof -
  obtain num labels area where cc:
    "cv_connectedComponentsWithStats e (astype_u8 m) = (num, labels, area)"
    by (cases "cv_connectedComponentsWithStats e (astype_u8 m)") auto
  have bg: "\<And>i. 0 < i \<Longrightarrow> \<not> any2 (labels_eq labels i)"
    using assms cc unfolding cc_background_zero_def
    by (metis (mono_tags, lifting) case_prod_conv gt0_astype_u8)
  have "\<not> any2 (fold (\<lambda>i keep. if a \<le> int (area ! i)
                                    then logical_or keep (labels_eq labels i) else keep)
                         is acc)" if "\<not> any2 acc" "\<forall>i\<in>set is. 0 < i" for "is" acc
    using that
  proof (induction "is" arbitrary: acc)
    case Nil then show ?case by simp
  next
    case (Cons i "is")
    have "\<not> any2 (logical_or acc (labels_eq labels i))"
      using any2_logical_or Cons.prems bg by auto
    with Cons show ?case by simp
  qed
  from this[of "zeros (shape2 (astype_u8 m))" "[1..<num]"]
  show ?thesis
    using assms(2) by (simp add: filter_small_components_def cc Let_def)
qed

lemma morphology_empty:
  assumes "morph_keeps_empty e" "\<not> any2 m"
  shows "\<not> any2 (morphology e self m)"
  using assms unfolding morph_keeps_empty_def morphology_def
  by (simp add: Let_def)

lemma postprocess_empty:
  assumes "cc_background_zero e" "morph_keeps_empty e" "\<not> any2 m"
  shows "\<not> any2 (postprocess e self m)"
  unfolding postprocess_def
  using morphology_empty[OF assms(2)] filter_small_components_empty[OF assms(1)] assms(3)
  by auto

subsection \<open>The fill and the size of the mask\<close>

lemma shape2_cong: "map length a = map length b \<Longrightarrow> shape2 a = shape2 b"
  by (cases a; cases b) (auto simp: shape2_def height_def width_def dest: map_eq_imp_length_eq)

lemma map_length_slice2:
  "map length (slice2 y0 y1 x0 x1 a) =
     map (\<lambda>n. min (n - x0) (x1 - x0)) (take (y1 - y0) (drop y0 (map length a)))"
  by (simp add: slice2_def take_map drop_map comp_def)

lemma map_length_inpaint_mask: "map length (times255 (astype_u8 m)) = map length m"
  by (simp add: times255_def astype_u8_def comp_def)

lemma cv2_inpaint_fits:
  "map length m = map length src \<Longrightarrow> cv2_inpaint e src m r f = Inr (cv_inpaint e src m r f)"
  using shape2_cong[of m src] by (simp add: cv2_inpaint_def)

lemma fill_roi_fits:
  assumes "map length m = map length img"
  shows "\<exists>f bb. fill_roi e s img m = Inr (f, bb)"
proof -
  have a: "map length (times255 (astype_u8 m)) = map length img"
    using assms by (simp add: map_length_inpaint_mask)
  have b: "map length (slice2 y0 y1 x0 x1 (times255 (astype_u8 m)))
      = map length (slice2 y0 y1 x0 x1 img)" for y0 y1 x0 x1
    by (simp only: map_length_slice2 a)
  show ?thesis
    by (simp add: fill_roi_def Let_def cv2_inpaint_fits[OF a] cv2_inpaint_fits[OF b]
        split: prod.splits)
qed

lemma fill_roi_empty: "\<not> any2 m \<Longrightarrow> fill_roi e self img m = Inr (img, [0, 0, 0, 0])"
  by (simp add: fill_roi_def)

subsection \<open>The temporal persistence\<close>

lemma inpaint_stable_step:
  assumes "channels img = 3" "detect_mask e self img = Inr dm"
    "temporal_persistence self dm = (used, self')"
  shows "inpaint_stable e self (Some img) prior =
     (case fill_roi e self' img (postprocess e self' used) of
        Inl err \<Rightarrow> (Inl err, self')
      | Inr (repaired, bb) \<Rightarrow>
          (Inr repaired,
           self'\<lparr>last_debug := Some (debug_of dm (postprocess e self' used) bb)\<rparr>))"
  using assms by (simp add: inpaint_stable_def stable_masks_def)

lemma stabilizer_rule:
  assumes "channels img = 3" "detect_mask e self img = Inr dm"
  shows "\<exists>used self'.
     temporal_persistence self dm = (used, self') \<and>
     inpaint_stable e self (Some img) prior =
       (case fill_roi e self img (postprocess e self used) of
          Inl err \<Rightarrow> (Inl err, self')
        | Inr (repaired, bb) \<Rightarrow>
            (Inr repaired,
             self'\<lparr>last_debug := Some (debug_of dm (postprocess e self used) bb)\<rparr>)) \<and>
     (any2 dm \<longrightarrow>
        used = dm \<and> prev_mask self' = Some dm \<and> prev_ttl self' = max 0 (keep_frames self)) \<and>
     (\<not> any2 dm \<and> prev_mask self \<noteq> None \<and> 0 < prev_ttl self \<longrightarrow>
        Some used = prev_mask self \<and> prev_mask self' = prev_mask self \<and>
        prev_ttl self' = prev_ttl self - 1) \<and>
     (\<not> any2 dm \<and> (prev_mask self = None \<or> prev_ttl self \<le> 0) \<longrightarrow>
        used = dm \<and> self' = self)"
proof -
  obtain used self' where tp: "temporal_persistence self dm = (used, self')"
    by (cases "temporal_persistence self dm") auto
  have s': "self' = snd (temporal_persistence self dm)" by (simp add: tp)
  have pp: "postprocess e self' = postprocess e self"
    by (intro ext postprocess_cong) (simp_all add: s' temporal_persistence_fields)
  have fr: "fill_roi e self' = fill_roi e self"
    by (intro ext fill_roi_cong) (simp_all add: s' temporal_persistence_fields)
  have step: "inpaint_stable e self (Some img) prior =
       (case fill_roi e self img (postprocess e self used) of
          Inl err \<Rightarrow> (Inl err, self')
        | Inr (repaired, bb) \<Rightarrow>
            (Inr repaired,
             self'\<lparr>last_debug := Some (debug_of dm (postprocess e self used) bb)\<rparr>))"
    using inpaint_stable_step[OF assms tp, of prior] unfolding pp fr .
  have rules: "(any2 dm \<longrightarrow>
        used = dm \<and> prev_mask self' = Some dm \<and> prev_ttl self' = max 0 (keep_frames self)) \<and>
     (\<not> any2 dm \<and> prev_mask self \<noteq> None \<and> 0 < prev_ttl self \<longrightarrow>
        Some used = prev_mask self \<and> prev_mask self' = prev_mask self \<and>
        prev_ttl self' = prev_ttl self - 1) \<and>
     (\<not> any2 dm \<and> (prev_mask self = None \<or> prev_ttl self \<le> 0) \<longrightarrow>
        used = dm \<and> self' = self)"
    using tp by (auto simp: temporal_persistence_def split: if_splits)
  show ?thesis using tp step rules by blast
qed

lemma inpaint_stable_fields:
  "inference_size (snd (inpaint_stable e s img prior)) = inference_size s"
  "target_labels (snd (inpaint_stable e s img prior)) = target_labels s"
  "class_names (snd (inpaint_stable e s img prior)) = class_names s"
  "score_threshold (snd (inpaint_stable e s img prior)) = score_threshold s"
  "inpaint_radius (snd (inpaint_stable e s img prior)) = inpaint_radius s"
  "inpaint_flags (snd (inpaint_stable e s img prior)) = inpaint_flags s"
  "min_area (snd (inpaint_stable e s img prior)) = min_area s"
  "mask_close (snd (inpaint_stable e s img prior)) = mask_close s"
  "mask_dilate (snd (inpaint_stable e s img prior)) = mask_dilate s"
  "roi_margin (snd (inpaint_stable e s img prior)) = roi_margin s"
  "keep_frames (snd (inpaint_stable e s img prior)) = keep_frames s"
  by (simp_all add: inpaint_stable_def stable_masks_def temporal_persistence_def
      split: option.splits sum.splits prod.splits if_splits)

lemma inpaint_stable_frame:
  assumes "channels img = 3" "detect_mask e s img = Inr dm"
    "temporal_persistence s dm = (used, s')"
  shows "fst (inpaint_stable e s (Some img) prior)
           = map_sum id fst (fill_roi e s img (postprocess e s used))"
    and "prev_mask (snd (inpaint_stable e s (Some img) prior)) = prev_mask s'"
    and "prev_ttl (snd (inpaint_stable e s (Some img) prior)) = prev_ttl s'"
    and "last_debug (snd (inpaint_stable e s (Some img) prior))
           = (case fill_roi e s img (postprocess e s used) of
                Inl err \<Rightarrow> last_debug s'
              | Inr (repaired, bb) \<Rightarrow> Some (debug_of dm (postprocess e s used) bb))"
proof -
  have s': "s' = snd (temporal_persistence s dm)" by (simp add: assms(3))
  have pp: "postprocess e s' = postprocess e s"
    by (intro ext postprocess_cong) (simp_all add: s' temporal_persistence_fields)
  have fr: "fill_roi e s' = fill_roi e s"
    by (intro ext fill_roi_cong) (simp_all add: s' temporal_persistence_fields)
  note step = inpaint_stable_step[OF assms, of prior, unfolded pp fr]
  show "fst (inpaint_stable e s (Some img) prior)
           = map_sum id fst (fill_roi e s img (postprocess e s used))"
    by (simp add: step split: sum.splits)
  show "prev_mask (snd (inpaint_stable e s (Some img) prior)) = prev_mask s'"
    by (simp add: step split: sum.splits)
  show "prev_ttl (snd (inpaint_stable e s (Some img) prior)) = prev_ttl s'"
    by (simp add: step split: sum.splits)
  show "last_debug (snd (inpaint_stable e s (Some img) prior))
           = (case fill_roi e s img (postprocess e s used) of
                Inl err \<Rightarrow> last_debug s'
              | Inr (repaired, bb) \<Rightarrow> Some (debug_of dm (postprocess e s used) bb))"
    by (simp add: step split: sum.splits)
qed

lemma stabilizer_sequence:
  assumes k: "keep_frames s0 = 2"
    and ch: "channels i1 = 3" "channels i2 = 3" "channels i3 = 3" "channels i4 = 3"
    and d1: "detect_mask e s0 i1 = Inr m" "any2 m"
    and d2: "detect_mask e s0 i2 = Inr z2" "\<not> any2 z2"
    and d3: "detect_mask e s0 i3 = Inr z3" "\<not> any2 z3"
    and d4: "detect_mask e s0 i4 = Inr z4" "\<not> any2 z4"
    and cv: "cc_background_zero e" "morph_keeps_empty e"
  shows "(case inpaint_stable e s0 (Some i1) p1 of (r1, s1) \<Rightarrow>
          case inpaint_stable e s1 (Some i2) p2 of (r2, s2) \<Rightarrow>
          case inpaint_stable e s2 (Some i3) p3 of (r3, s3) \<Rightarrow>
          case inpaint_stable e s3 (Some i4) p4 of (r4, s4) \<Rightarrow>
            [fst (temporal_persistence s0 m), fst (temporal_persistence s1 z2),
             fst (temporal_persistence s2 z3), fst (temporal_persistence s3 z4)] = [m, m, m, z4] \<and>
            map prev_ttl [s1, s2, s3, s4] = [2, 1, 0, 0] \<and>
            map prev_mask [s1, s2, s3, s4] = [Some m, Some m, Some m, Some m] \<and>
            [r1, r2, r3] =
              map (\<lambda>i. map_sum id fst (fill_roi e s0 i (postprocess e s0 m))) [i1, i2, i3] \<and>
            r4 = Inr i4 \<and>
            (\<exists>d. last_debug s4 = Some d \<and> \<not> any2 (gt0 (final_mask d)) \<and>
                 \<not> any2 (gt0 (inpaint_mask d)) \<and> bbox d = [0, 0, 0, 0]) \<and>
            (any2 (postprocess e s0 m) \<and>
             map length (postprocess e s0 m) = map length i1 \<and>
             map length (postprocess e s0 m) = map length i2 \<and>
             map length (postprocess e s0 m) = map length i3 \<longrightarrow>
               (\<exists>f1 f2 f3. [r1, r2, r3] = [Inr f1, Inr f2, Inr f3]) \<and>
               map (map_option final_mask \<circ> last_debug) [s1, s2, s3] =
                 [Some (astype_u8 (postprocess e s0 m)), Some (astype_u8 (postprocess e s0 m)),
                  Some (astype_u8 (postprocess e s0 m))] \<and>
               map (map_option (any2 \<circ> gt0 \<circ> inpaint_mask) \<circ> last_debug) [s1, s2, s3] =
                 [Some True, Some True, Some True]) \<and>
            (\<not> any2 (postprocess e s0 m) \<longrightarrow>
               [r1, r2, r3] = [Inr i1, Inr i2, Inr i3] \<and>
               map (map_option final_mask \<circ> last_debug) [s1, s2, s3] =
                 [Some (astype_u8 (postprocess e s0 m)), Some (astype_u8 (postprocess e s0 m)),
                  Some (astype_u8 (postprocess e s0 m))] \<and>
               map (map_option (any2 \<circ> gt0 \<circ> inpaint_mask) \<circ> last_debug) [s1, s2, s3] =
                 [Some False, Some False, Some False]))"
proof -
  define s1 where "s1 = snd (inpaint_stable e s0 (Some i1) p1)"
  define s2 where "s2 = snd (inpaint_stable e s1 (Some i2) p2)"
  define s3 where "s3 = snd (inpaint_stable e s2 (Some i3) p3)"
  define s4 where "s4 = snd (inpaint_stable e s3 (Some i4) p4)"
  define pm where "pm = postprocess e s0 m"
  have dm1: "detect_mask e s1 = detect_mask e s0"
    by (intro ext detect_mask_cong) (simp_all add: s1_def inpaint_stable_fields)
  have pp1: "postprocess e s1 = postprocess e s0"
    by (intro ext postprocess_cong) (simp_all add: s1_def inpaint_stable_fields)
  have fr1: "fill_roi e s1 = fill_roi e s0"
    by (intro ext fill_roi_cong) (simp_all add: s1_def inpaint_stable_fields)
  have dm2: "detect_mask e s2 = detect_mask e s0"
    unfolding dm1[symmetric]
    by (intro ext detect_mask_cong) (simp_all add: s2_def inpaint_stable_fields)
  have pp2: "postprocess e s2 = postprocess e s0"
    unfolding pp1[symmetric]
    by (intro ext postprocess_cong) (simp_all add: s2_def inpaint_stable_fields)
  have fr2: "fill_roi e s2 = fill_roi e s0"
    unfolding fr1[symmetric]
    by (intro ext fill_roi_cong) (simp_all add: s2_def inpaint_stable_fields)
  have dm3: "detect_mask e s3 = detect_mask e s0"
    unfolding dm2[symmetric]
    by (intro ext detect_mask_cong) (simp_all add: s3_def inpaint_stable_fields)
  have pp3: "postprocess e s3 = postprocess e s0"
    unfolding pp2[symmetric]
    by (intro ext postprocess_cong) (simp_all add: s3_def inpaint_stable_fields)
  have tp1: "temporal_persistence s0 m = (m, s0\<lparr>prev_mask := Some m, prev_ttl := 2\<rparr>)"
    using d1(2) k by (simp add: temporal_persistence_def)
  note f1 = inpaint_stable_frame[OF ch(1) d1(1) tp1, of p1, folded s1_def pm_def]
  have st1: "prev_mask s1 = Some m" "prev_ttl s1 = 2"
    using f1(2,3) by simp_all
  have tp2: "temporal_persistence s1 z2 = (m, s1\<lparr>prev_ttl := 1\<rparr>)"
    using d2(2) st1 by (simp add: temporal_persistence_def)
  note f2 = inpaint_stable_frame[OF ch(2) d2(1)[folded dm1] tp2, of p2,
      unfolded pp1 fr1, folded s2_def pm_def]
  have st2: "prev_mask s2 = Some m" "prev_ttl s2 = 1"
    using f2(2,3) st1 by simp_all
  have tp3: "temporal_persistence s2 z3 = (m, s2\<lparr>prev_ttl := 0\<rparr>)"
    using d3(2) st2 by (simp add: temporal_persistence_def)
  note f3 = inpaint_stable_frame[OF ch(3) d3(1)[folded dm2] tp3, of p3,
      unfolded pp2 fr2, folded s3_def pm_def]
  have st3: "prev_mask s3 = Some m" "prev_ttl s3 = 0"
    using f3(2,3) st2 by simp_all
  have tp4: "temporal_persistence s3 z4 = (z4, s3)"
    using d4(2) st3 by (simp add: temporal_persistence_def)
  have e4: "\<not> any2 (postprocess e s3 z4)"
    using postprocess_empty cv d4(2) by blast
  note f4 = inpaint_stable_frame[OF ch(4) d4(1)[folded dm3] tp4, of p4, folded s4_def]
  have fill4: "fill_roi e s3 i4 (postprocess e s3 z4) = Inr (i4, [0, 0, 0, 0])"
    using e4 by (rule fill_roi_empty)
  have r4: "fst (inpaint_stable e s3 (Some i4) p4) = Inr i4"
    using f4(1) by (simp add: fill4)
  have st4: "prev_mask s4 = Some m" "prev_ttl s4 = 0"
    using f4(2,3) st3 by simp_all
  have dbg4: "last_debug s4 = Some (debug_of z4 (postprocess e s3 z4) [0, 0, 0, 0])"
    using f4(4) by (simp add: fill4)
  have d4': "\<exists>d. last_debug s4 = Some d \<and> \<not> any2 (gt0 (final_mask d)) \<and>
      \<not> any2 (gt0 (inpaint_mask d)) \<and> bbox d = [0, 0, 0, 0]"
    using e4 by (simp add: dbg4 debug_of_def)
  have fits: "any2 pm \<and> map length pm = map length i1 \<and> map length pm = map length i2 \<and>
      map length pm = map length i3 \<longrightarrow>
        (\<exists>f1 f2 f3. [fst (inpaint_stable e s0 (Some i1) p1), fst (inpaint_stable e s1 (Some i2) p2),
            fst (inpaint_stable e s2 (Some i3) p3)] = [Inr f1, Inr f2, Inr f3]) \<and>
        map (map_option final_mask \<circ> last_debug) [s1, s2, s3] =
          [Some (astype_u8 pm), Some (astype_u8 pm), Some (astype_u8 pm)] \<and>
        map (map_option (any2 \<circ> gt0 \<circ> inpaint_mask) \<circ> last_debug) [s1, s2, s3] =
          [Some True, Some True, Some True]"
  proof
    assume h: "any2 pm \<and> map length pm = map length i1 \<and> map length pm = map length i2 \<and>
      map length pm = map length i3"
    obtain g1 b1 where a1: "fill_roi e s0 i1 pm = Inr (g1, b1)"
      using fill_roi_fits[of pm i1 e s0] h by blast
    obtain g2 b2 where a2: "fill_roi e s0 i2 pm = Inr (g2, b2)"
      using fill_roi_fits[of pm i2 e s0] h by blast
    obtain g3 b3 where a3: "fill_roi e s0 i3 pm = Inr (g3, b3)"
      using fill_roi_fits[of pm i3 e s0] h by blast
    show "(\<exists>f1 f2 f3. [fst (inpaint_stable e s0 (Some i1) p1), fst (inpaint_stable e s1 (Some i2) p2),
            fst (inpaint_stable e s2 (Some i3) p3)] = [Inr f1, Inr f2, Inr f3]) \<and>
        map (map_option final_mask \<circ> last_debug) [s1, s2, s3] =
          [Some (astype_u8 pm), Some (astype_u8 pm), Some (astype_u8 pm)] \<and>
        map (map_option (any2 \<circ> gt0 \<circ> inpaint_mask) \<circ> last_debug) [s1, s2, s3] =
          [Some True, Some True, Some True]"
      using h by (simp add: f1(1,4) f2(1,4) f3(1,4) a1 a2 a3 debug_of_def)
  qed
  have nofill: "\<not> any2 pm \<longrightarrow>
        [fst (inpaint_stable e s0 (Some i1) p1), fst (inpaint_stable e s1 (Some i2) p2),
         fst (inpaint_stable e s2 (Some i3) p3)] = [Inr i1, Inr i2, Inr i3] \<and>
        map (map_option final_mask \<circ> last_debug) [s1, s2, s3] =
          [Some (astype_u8 pm), Some (astype_u8 pm), Some (astype_u8 pm)] \<and>
        map (map_option (any2 \<circ> gt0 \<circ> inpaint_mask) \<circ> last_debug) [s1, s2, s3] =
          [Some False, Some False, Some False]"
    by (simp add: f1(1,4) f2(1,4) f3(1,4) fill_roi_empty debug_of_def)
  have used: "[fst (temporal_persistence s0 m), fst (temporal_persistence s1 z2),
             fst (temporal_persistence s2 z3), fst (temporal_persistence s3 z4)] = [m, m, m, z4]"
    by (simp add: tp1 tp2 tp3 tp4)
  have res: "[fst (inpaint_stable e s0 (Some i1) p1), fst (inpaint_stable e s1 (Some i2) p2),
         fst (inpaint_stable e s2 (Some i3) p3)] =
      map (\<lambda>i. map_sum id fst (fill_roi e s0 i pm)) [i1, i2, i3]"
    by (simp add: f1(1) f2(1) f3(1))
  show ?thesis
    unfolding case_prod_unfold s1_def[symmetric] s2_def[symmetric] s3_def[symmetric]
      s4_def[symmetric] pm_def[symmetric]
    using used res r4 d4' fits nofill st1 st2 st3 st4 by simp
qed

subsection \<open>The stand-ins\<close>

lemma demo_cc_background: "cc_background_zero demo_env"
  by (auto simp: cc_background_zero_def demo_env_def demo_cc_def labels_eq_def any2_iff gt0_def
      Let_def split: if_splits)

lemma demo_morph_keeps_empty: "morph_keeps_empty demo_env"
  by (simp add: morph_keeps_empty_def demo_env_def)

lemma demo_detect_white: "detect_mask demo_env (demo_stable a) white = Inr [[True]]"
  by (simp add: detect_mask_def stable_working_def demo_stable_def stable_init_def demo_base_def
      demo_env_def
      white_def height_def width_def cvtColor_BGR2RGB_def demo_detector_def
      build_combined_mask_def label_name_def decode_mask_def shape2_def zeros_def logical_or_def)

lemma demo_detect_black: "detect_mask demo_env (demo_stable a) black = Inr [[False]]"
  by (simp add: detect_mask_def stable_working_def demo_stable_def stable_init_def demo_base_def
      demo_env_def
      black_def height_def width_def cvtColor_BGR2RGB_def demo_detector_def
      build_combined_mask_def label_name_def decode_mask_def shape2_def zeros_def logical_or_def)

lemma demo_detect_grey: "detect_mask demo_env (demo_stable a) grey = Inr [[False]]"
  by (simp add: detect_mask_def stable_working_def demo_stable_def stable_init_def demo_base_def
      demo_env_def
      grey_def height_def width_def cvtColor_BGR2RGB_def demo_detector_def
      build_combined_mask_def label_name_def decode_mask_def shape2_def zeros_def logical_or_def)

lemma demo_postprocess_1: "postprocess demo_env (demo_stable 1) m = m"
  by (simp add: postprocess_def morphology_def demo_stable_def stable_init_def)

lemma nonzero_single: "nonzero [[True]] = [(0, 0)]"
  by (simp add: nonzero_def enumerate_eq_zip)

lemma demo_fill_white:
  "fill_roi demo_env (demo_stable 1) [[p]] [[True]] = Inr ([[map (\<lambda>c. 0) p]], [0, 0, 0, 0])"
  by (simp add: fill_roi_def roi_bounds_def nonzero_single any2_def height_def width_def
      cv2_inpaint_def shape2_def
      demo_env_def demo_inpaint_def times255_def astype_u8_def demo_stable_def stable_init_def
      demo_base_def)

lemma demo_filter_single:
  "filter_small_components demo_env [[True]] 64 = [[False]]"
  by (simp add: filter_small_components_def astype_u8_def height_def width_def gt0_def
      demo_env_def demo_cc_def nonzero_single shape2_def zeros_def Let_def
      numeral_2_eq_2 upt_conv_Cons)

lemma demo_postprocess_64: "postprocess demo_env (demo_stable 64) [[True]] = [[False]]"
  by (simp add: postprocess_def morphology_def demo_stable_def stable_init_def
      demo_filter_single)

subsection \<open>C1: the temporal stabilizer\<close>

text \<open>
  A remembered mask of another size than the frame: after a one-pixel frame whose pixel was
  detected, a frame of two by two pixels with nothing detected reuses the remembered mask,
  the persistence drops from 2 to 1, and \<open>cv2.inpaint\<close> raises on the crop of the frame (two
  by two) and the crop of the mask (one by one); no debug record is written.
\<close>

lemma remembered_mask_of_another_size:
  "fst (inpaint_stable demo_env ((demo_stable 1)\<lparr>prev_mask := Some [[True]], prev_ttl := 2\<rparr>)
         (Some grey2) None) = Inl CvError \<and>
   prev_ttl (snd (inpaint_stable demo_env
         ((demo_stable 1)\<lparr>prev_mask := Some [[True]], prev_ttl := 2\<rparr>) (Some grey2) None)) = 1 \<and>
   last_debug (snd (inpaint_stable demo_env
         ((demo_stable 1)\<lparr>prev_mask := Some [[True]], prev_ttl := 2\<rparr>) (Some grey2) None)) = None"
  by code_simp

text \<open>
  Claim C1 ends: with \<open>keep_frames = 2\<close> and the detections non-empty, empty, empty, empty,
  the fourth frame is the first with no fill. The stabilizer chooses among detection masks as
  detected, and the fill runs on the postprocessed choice. With the default minimum area of 64
  a detection of one pixel is chosen for the frames 1 to 3 and removed by the postprocessor on
  each of them: the first frame already comes back as it went in, with an all-zero final
  mask, an all-zero inpaint mask and the box \<open>[0, 0, 0, 0]\<close>, and so do the other three.
\<close>

theorem first_unfilled_frame_counterexample:
  "keep_frames (demo_stable 64) = 2 \<and>
   map (detect_mask demo_env (demo_stable 64)) [white, grey, grey, grey] =
     [Inr [[True]], Inr [[False]], Inr [[False]], Inr [[False]]] \<and>
   (case inpaint_stable demo_env (demo_stable 64) (Some white) None of (r1, s1) \<Rightarrow>
    case inpaint_stable demo_env s1 (Some grey) None of (r2, s2) \<Rightarrow>
    case inpaint_stable demo_env s2 (Some grey) None of (r3, s3) \<Rightarrow>
    case inpaint_stable demo_env s3 (Some grey) None of (r4, s4) \<Rightarrow>
      [fst (temporal_persistence (demo_stable 64) [[True]]),
       fst (temporal_persistence s1 [[False]]),
       fst (temporal_persistence s2 [[False]]),
       fst (temporal_persistence s3 [[False]])] = [[[True]], [[True]], [[True]], [[False]]] \<and>
      [r1, r2, r3, r4] = [Inr white, Inr grey, Inr grey, Inr grey] \<and>
      map (map_option final_mask \<circ> last_debug) [s1, s2, s3, s4] =
        [Some [[0]], Some [[0]], Some [[0]], Some [[0]]] \<and>
      map (map_option inpaint_mask \<circ> last_debug) [s1, s2, s3, s4] =
        [Some [[0]], Some [[0]], Some [[0]], Some [[0]]] \<and>
      map (map_option bbox \<circ> last_debug) [s1, s2, s3, s4] =
        [Some [0, 0, 0, 0], Some [0, 0, 0, 0], Some [0, 0, 0, 0], Some [0, 0, 0, 0]])"
  by code_simp

text \<open>
  Claim C1, amended. For every frame that \<open>RTMDetInpainterStable.inpaint\<close> processes (the
  frame has three channels and the detection stage returns the mask \<open>dm\<close>), the mask \<open>used\<close>
  for the frame and the object afterwards are those of the transition of lines 89 to 95, and
  the call then runs the fill stage on the postprocessed \<open>used\<close>: it returns the repaired frame
  and writes the debug record, or raises where \<open>cv2.inpaint\<close> raises, the object keeping the
  transition's update. If \<open>dm\<close> has a set pixel, it is used and remembered and the remaining
  persistence becomes \<open>max(0, keep_frames)\<close>; if it has none while a mask is remembered with
  persistence above zero, the remembered mask is used and the persistence drops by one; if it
  has none and nothing is remembered or the persistence is used up, the empty mask is used and
  the state is unchanged.
  In particular, with \<open>keep_frames = 2\<close> and four frames whose detection masks are
  non-empty, empty, empty, empty, the masks the stabilizer chooses are \<open>[m, m, m, empty]\<close>,
  the persistence after each frame is \<open>[2, 1, 0, 0]\<close>, each of the first three calls is the
  fill stage on the postprocessed \<open>m\<close> (its frame, or its exception), and the fourth returns
  its input frame with an all-zero final mask, an all-zero inpaint mask and the box
  \<open>[0, 0, 0, 0]\<close>: no fill. A frame is filled when the inpaint mask of its call (line 112)
  has a set pixel: lines 116 to 133 then call \<open>cv2.inpaint\<close> with it. The first three frames
  are filled, and the fourth is the first that is not, when the postprocessed \<open>m\<close> has a set
  pixel and has as many rows, and as many pixels in each row, as each of these frames: then
  each of the three calls returns a frame and records the postprocessed \<open>m\<close> as its final
  mask and an inpaint mask with a set pixel. When the postprocessor leaves no pixel of \<open>m\<close>,
  none of the four frames is filled: the first three calls return their input frames and
  record an all-zero inpaint mask. The fourth frame rests on OpenCV keeping an all-zero image
  all-zero.
\<close>

theorem temporal_stabilizer_transition:
  "(channels img = 3 \<and> detect_mask e self img = Inr dm \<longrightarrow>
      (\<exists>used self'.
         temporal_persistence self dm = (used, self') \<and>
         inpaint_stable e self (Some img) prior =
           (case fill_roi e self img (postprocess e self used) of
              Inl err \<Rightarrow> (Inl err, self')
            | Inr (repaired, bb) \<Rightarrow>
                (Inr repaired,
                 self'\<lparr>last_debug := Some (debug_of dm (postprocess e self used) bb)\<rparr>)) \<and>
         (any2 dm \<longrightarrow>
            used = dm \<and> prev_mask self' = Some dm \<and> prev_ttl self' = max 0 (keep_frames self)) \<and>
         (\<not> any2 dm \<and> prev_mask self \<noteq> None \<and> 0 < prev_ttl self \<longrightarrow>
            Some used = prev_mask self \<and> prev_mask self' = prev_mask self \<and>
            prev_ttl self' = prev_ttl self - 1) \<and>
         (\<not> any2 dm \<and> (prev_mask self = None \<or> prev_ttl self \<le> 0) \<longrightarrow>
            used = dm \<and> self' = self)))
   \<and>
   (keep_frames s0 = 2 \<and>
    channels i1 = 3 \<and> channels i2 = 3 \<and> channels i3 = 3 \<and> channels i4 = 3 \<and>
    detect_mask e s0 i1 = Inr m \<and> any2 m \<and>
    detect_mask e s0 i2 = Inr z2 \<and> \<not> any2 z2 \<and>
    detect_mask e s0 i3 = Inr z3 \<and> \<not> any2 z3 \<and>
    detect_mask e s0 i4 = Inr z4 \<and> \<not> any2 z4 \<and>
    cc_background_zero e \<and> morph_keeps_empty e \<longrightarrow>
      (case inpaint_stable e s0 (Some i1) p1 of (r1, s1) \<Rightarrow>
       case inpaint_stable e s1 (Some i2) p2 of (r2, s2) \<Rightarrow>
       case inpaint_stable e s2 (Some i3) p3 of (r3, s3) \<Rightarrow>
       case inpaint_stable e s3 (Some i4) p4 of (r4, s4) \<Rightarrow>
         [fst (temporal_persistence s0 m), fst (temporal_persistence s1 z2),
          fst (temporal_persistence s2 z3), fst (temporal_persistence s3 z4)] = [m, m, m, z4] \<and>
         map prev_ttl [s1, s2, s3, s4] = [2, 1, 0, 0] \<and>
         map prev_mask [s1, s2, s3, s4] = [Some m, Some m, Some m, Some m] \<and>
         [r1, r2, r3] =
           map (\<lambda>i. map_sum id fst (fill_roi e s0 i (postprocess e s0 m))) [i1, i2, i3] \<and>
         r4 = Inr i4 \<and>
         (\<exists>d. last_debug s4 = Some d \<and> \<not> any2 (gt0 (final_mask d)) \<and>
                 \<not> any2 (gt0 (inpaint_mask d)) \<and> bbox d = [0, 0, 0, 0]) \<and>
         (any2 (postprocess e s0 m) \<and>
          map length (postprocess e s0 m) = map length i1 \<and>
          map length (postprocess e s0 m) = map length i2 \<and>
          map length (postprocess e s0 m) = map length i3 \<longrightarrow>
            (\<exists>f1 f2 f3. [r1, r2, r3] = [Inr f1, Inr f2, Inr f3]) \<and>
            map (map_option final_mask \<circ> last_debug) [s1, s2, s3] =
              [Some (astype_u8 (postprocess e s0 m)), Some (astype_u8 (postprocess e s0 m)),
               Some (astype_u8 (postprocess e s0 m))] \<and>
            map (map_option (any2 \<circ> gt0 \<circ> inpaint_mask) \<circ> last_debug) [s1, s2, s3] =
              [Some True, Some True, Some True]) \<and>
         (\<not> any2 (postprocess e s0 m) \<longrightarrow>
            [r1, r2, r3] = [Inr i1, Inr i2, Inr i3] \<and>
            map (map_option final_mask \<circ> last_debug) [s1, s2, s3] =
              [Some (astype_u8 (postprocess e s0 m)), Some (astype_u8 (postprocess e s0 m)),
               Some (astype_u8 (postprocess e s0 m))] \<and>
            map (map_option (any2 \<circ> gt0 \<circ> inpaint_mask) \<circ> last_debug) [s1, s2, s3] =
              [Some False, Some False, Some False])))"
proof (intro conjI impI)
  assume "channels img = 3 \<and> detect_mask e self img = Inr dm"
  then show "\<exists>used self'.
         temporal_persistence self dm = (used, self') \<and>
         inpaint_stable e self (Some img) prior =
           (case fill_roi e self img (postprocess e self used) of
              Inl err \<Rightarrow> (Inl err, self')
            | Inr (repaired, bb) \<Rightarrow>
                (Inr repaired,
                 self'\<lparr>last_debug := Some (debug_of dm (postprocess e self used) bb)\<rparr>)) \<and>
         (any2 dm \<longrightarrow>
            used = dm \<and> prev_mask self' = Some dm \<and> prev_ttl self' = max 0 (keep_frames self)) \<and>
         (\<not> any2 dm \<and> prev_mask self \<noteq> None \<and> 0 < prev_ttl self \<longrightarrow>
            Some used = prev_mask self \<and> prev_mask self' = prev_mask self \<and>
            prev_ttl self' = prev_ttl self - 1) \<and>
         (\<not> any2 dm \<and> (prev_mask self = None \<or> prev_ttl self \<le> 0) \<longrightarrow>
            used = dm \<and> self' = self)"
    using stabilizer_rule[of img e self dm prior] by blast
next
  assume "keep_frames s0 = 2 \<and>
    channels i1 = 3 \<and> channels i2 = 3 \<and> channels i3 = 3 \<and> channels i4 = 3 \<and>
    detect_mask e s0 i1 = Inr m \<and> any2 m \<and>
    detect_mask e s0 i2 = Inr z2 \<and> \<not> any2 z2 \<and>
    detect_mask e s0 i3 = Inr z3 \<and> \<not> any2 z3 \<and>
    detect_mask e s0 i4 = Inr z4 \<and> \<not> any2 z4 \<and>
    cc_background_zero e \<and> morph_keeps_empty e"
  then show "(case inpaint_stable e s0 (Some i1) p1 of (r1, s1) \<Rightarrow>
       case inpaint_stable e s1 (Some i2) p2 of (r2, s2) \<Rightarrow>
       case inpaint_stable e s2 (Some i3) p3 of (r3, s3) \<Rightarrow>
       case inpaint_stable e s3 (Some i4) p4 of (r4, s4) \<Rightarrow>
         [fst (temporal_persistence s0 m), fst (temporal_persistence s1 z2),
          fst (temporal_persistence s2 z3), fst (temporal_persistence s3 z4)] = [m, m, m, z4] \<and>
         map prev_ttl [s1, s2, s3, s4] = [2, 1, 0, 0] \<and>
         map prev_mask [s1, s2, s3, s4] = [Some m, Some m, Some m, Some m] \<and>
         [r1, r2, r3] =
           map (\<lambda>i. map_sum id fst (fill_roi e s0 i (postprocess e s0 m))) [i1, i2, i3] \<and>
         r4 = Inr i4 \<and>
         (\<exists>d. last_debug s4 = Some d \<and> \<not> any2 (gt0 (final_mask d)) \<and>
                 \<not> any2 (gt0 (inpaint_mask d)) \<and> bbox d = [0, 0, 0, 0]) \<and>
         (any2 (postprocess e s0 m) \<and>
          map length (postprocess e s0 m) = map length i1 \<and>
          map length (postprocess e s0 m) = map length i2 \<and>
          map length (postprocess e s0 m) = map length i3 \<longrightarrow>
            (\<exists>f1 f2 f3. [r1, r2, r3] = [Inr f1, Inr f2, Inr f3]) \<and>
            map (map_option final_mask \<circ> last_debug) [s1, s2, s3] =
              [Some (astype_u8 (postprocess e s0 m)), Some (astype_u8 (postprocess e s0 m)),
               Some (astype_u8 (postprocess e s0 m))] \<and>
            map (map_option (any2 \<circ> gt0 \<circ> inpaint_mask) \<circ> last_debug) [s1, s2, s3] =
              [Some True, Some True, Some True]) \<and>
         (\<not> any2 (postprocess e s0 m) \<longrightarrow>
            [r1, r2, r3] = [Inr i1, Inr i2, Inr i3] \<and>
            map (map_option final_mask \<circ> last_debug) [s1, s2, s3] =
              [Some (astype_u8 (postprocess e s0 m)), Some (astype_u8 (postprocess e s0 m)),
               Some (astype_u8 (postprocess e s0 m))] \<and>
            map (map_option (any2 \<circ> gt0 \<circ> inpaint_mask) \<circ> last_debug) [s1, s2, s3] =
              [Some False, Some False, Some False]))"
    by (elim conjE) (rule stabilizer_sequence; assumption)
qed

theorem temporal_stabilizer_transition_witness:
  "channels white = 3 \<and> channels grey = 3 \<and>
   cc_background_zero demo_env \<and> morph_keeps_empty demo_env \<and>
   keep_frames (demo_stable 1) = 2 \<and>
   detect_mask demo_env (demo_stable 1) white = Inr [[True]] \<and> any2 [[True]] \<and>
   detect_mask demo_env (demo_stable 1) grey = Inr [[False]] \<and> \<not> any2 [[False]] \<and>
   any2 (postprocess demo_env (demo_stable 1) [[True]]) \<and>
   map length (postprocess demo_env (demo_stable 1) [[True]]) = map length white \<and>
   map length (postprocess demo_env (demo_stable 1) [[True]]) = map length grey \<and>
   (case inpaint_stable demo_env (demo_stable 1) (Some white) None of (r1, s1) \<Rightarrow>
    case inpaint_stable demo_env s1 (Some grey) None of (r2, s2) \<Rightarrow>
    case inpaint_stable demo_env s2 (Some grey) None of (r3, s3) \<Rightarrow>
    case inpaint_stable demo_env s3 (Some grey) None of (r4, s4) \<Rightarrow>
      [r1, r2, r3, r4] = [Inr black, Inr black, Inr black, Inr grey] \<and>
      map prev_ttl [s1, s2, s3, s4] = [2, 1, 0, 0] \<and>
      map prev_mask [s1, s2, s3, s4] = [Some [[True]], Some [[True]], Some [[True]], Some [[True]]] \<and>
      map (map_option final_mask \<circ> last_debug) [s1, s2, s3] = [Some [[1]], Some [[1]], Some [[1]]] \<and>
      map (map_option (any2 \<circ> gt0 \<circ> inpaint_mask) \<circ> last_debug) [s1, s2, s3] =
        [Some True, Some True, Some True]) \<and>
   keep_frames (demo_stable 64) = 2 \<and>
   detect_mask demo_env (demo_stable 64) white = Inr [[True]] \<and>
   detect_mask demo_env (demo_stable 64) grey = Inr [[False]] \<and>
   \<not> any2 (postprocess demo_env (demo_stable 64) [[True]]) \<and>
   (case inpaint_stable demo_env (demo_stable 64) (Some white) None of (r1, s1) \<Rightarrow>
    case inpaint_stable demo_env s1 (Some grey) None of (r2, s2) \<Rightarrow>
    case inpaint_stable demo_env s2 (Some grey) None of (r3, s3) \<Rightarrow>
    case inpaint_stable demo_env s3 (Some grey) None of (r4, s4) \<Rightarrow>
      [r1, r2, r3, r4] = [Inr white, Inr grey, Inr grey, Inr grey] \<and>
      map prev_ttl [s1, s2, s3, s4] = [2, 1, 0, 0] \<and>
      map (map_option final_mask \<circ> last_debug) [s1, s2, s3] = [Some [[0]], Some [[0]], Some [[0]]] \<and>
      map (map_option (any2 \<circ> gt0 \<circ> inpaint_mask) \<circ> last_debug) [s1, s2, s3] =
        [Some False, Some False, Some False])"
proof -
  have h: "keep_frames (demo_stable a) = 2 \<and>
    channels white = 3 \<and> channels grey = 3 \<and> channels grey = 3 \<and> channels grey = 3 \<and>
    detect_mask demo_env (demo_stable a) white = Inr [[True]] \<and> any2 [[True]] \<and>
    detect_mask demo_env (demo_stable a) grey = Inr [[False]] \<and> \<not> any2 [[False]] \<and>
    detect_mask demo_env (demo_stable a) grey = Inr [[False]] \<and> \<not> any2 [[False]] \<and>
    detect_mask demo_env (demo_stable a) grey = Inr [[False]] \<and> \<not> any2 [[False]] \<and>
    cc_background_zero demo_env \<and> morph_keeps_empty demo_env" for a
    by (simp add: demo_detect_white demo_detect_grey demo_cc_background demo_morph_keeps_empty
        any2_def) (simp add: white_def grey_def channels_def demo_stable_def stable_init_def)
  have f: "fill_roi demo_env (demo_stable 1) white [[True]] = Inr (black, [0, 0, 0, 0])"
    "fill_roi demo_env (demo_stable 1) grey [[True]] = Inr (black, [0, 0, 0, 0])"
    by (simp_all add: white_def grey_def black_def demo_fill_white)
  have a: "astype_u8 [[True]] = [[1]]" "astype_u8 [[False]] = [[0]]"
    by (simp_all add: astype_u8_def)
  have l: "map length white = [1]" "map length grey = [1]"
    by (simp_all add: white_def grey_def)
  have n: "any2 [[True]]" "\<not> any2 [[False]]"
    by (simp_all add: any2_def)
  note t1 = temporal_stabilizer_transition[THEN conjunct2, rule_format, OF h [of 1],
      of None None None None]
  note t64 = temporal_stabilizer_transition[THEN conjunct2, rule_format, OF h [of 64],
      of None None None None]
  have w1: "case inpaint_stable demo_env (demo_stable 1) (Some white) None of (r1, s1) \<Rightarrow>
    case inpaint_stable demo_env s1 (Some grey) None of (r2, s2) \<Rightarrow>
    case inpaint_stable demo_env s2 (Some grey) None of (r3, s3) \<Rightarrow>
    case inpaint_stable demo_env s3 (Some grey) None of (r4, s4) \<Rightarrow>
      [r1, r2, r3, r4] = [Inr black, Inr black, Inr black, Inr grey] \<and>
      map prev_ttl [s1, s2, s3, s4] = [2, 1, 0, 0] \<and>
      map prev_mask [s1, s2, s3, s4] = [Some [[True]], Some [[True]], Some [[True]], Some [[True]]] \<and>
      map (map_option final_mask \<circ> last_debug) [s1, s2, s3] = [Some [[1]], Some [[1]], Some [[1]]] \<and>
      map (map_option (any2 \<circ> gt0 \<circ> inpaint_mask) \<circ> last_debug) [s1, s2, s3] =
        [Some True, Some True, Some True]"
    using t1 by (simp add: demo_postprocess_1 f a l n case_prod_unfold)
  have w64: "case inpaint_stable demo_env (demo_stable 64) (Some white) None of (r1, s1) \<Rightarrow>
    case inpaint_stable demo_env s1 (Some grey) None of (r2, s2) \<Rightarrow>
    case inpaint_stable demo_env s2 (Some grey) None of (r3, s3) \<Rightarrow>
    case inpaint_stable demo_env s3 (Some grey) None of (r4, s4) \<Rightarrow>
      [r1, r2, r3, r4] = [Inr white, Inr grey, Inr grey, Inr grey] \<and>
      map prev_ttl [s1, s2, s3, s4] = [2, 1, 0, 0] \<and>
      map (map_option final_mask \<circ> last_debug) [s1, s2, s3] = [Some [[0]], Some [[0]], Some [[0]]] \<and>
      map (map_option (any2 \<circ> gt0 \<circ> inpaint_mask) \<circ> last_debug) [s1, s2, s3] =
        [Some False, Some False, Some False]"
    using t64 by (simp add: demo_postprocess_64 fill_roi_empty a n case_prod_unfold)
  show ?thesis
    using h[of 1] h[of 64] w1 w64
    by (simp add: demo_postprocess_1 demo_postprocess_64 l n)
qed

subsection \<open>The set pixels of a mask\<close>

lemma set_nonzero:
  "set (nonzero m) = {(y, x). y < length m \<and> x < length (m ! y) \<and> m ! y ! x}"
proof -
  have "(y, x) \<in> set (nonzero m) \<longleftrightarrow> y < length m \<and> x < length (m ! y) \<and> m ! y ! x" for y x
  proof
    assume "(y, x) \<in> set (nonzero m)"
    then show "y < length m \<and> x < length (m ! y) \<and> m ! y ! x"
      by (auto simp: nonzero_def in_set_enumerate_eq)
  next
    assume h: "y < length m \<and> x < length (m ! y) \<and> m ! y ! x"
    then have "(y, m ! y) \<in> set (enumerate 0 m)"
      by (simp add: in_set_enumerate_eq)
    moreover have "(y, x) \<in> set ((\<lambda>(y, r). map (\<lambda>x. (y, x)) (filter (\<lambda>x. r ! x) [0..<length r])) (y, m ! y))"
      using h by simp
    ultimately have "\<exists>p\<in>set (enumerate 0 m).
        (y, x) \<in> set ((\<lambda>(y, r). map (\<lambda>x. (y, x)) (filter (\<lambda>x. r ! x) [0..<length r])) p)"
      by (rule rev_bexI)
    then show "(y, x) \<in> set (nonzero m)"
      unfolding nonzero_def by (simp only: set_concat set_map UN_iff bex_simps image_iff)
  qed
  then show ?thesis by auto
qed

lemma any2_nonzero: "any2 m \<longleftrightarrow> nonzero m \<noteq> []"
proof -
  have "any2 m \<longleftrightarrow> set (nonzero m) \<noteq> {}"
    unfolding set_nonzero any2_iff by (fastforce simp: in_set_conv_nth)
  then show ?thesis by simp
qed

subsection \<open>C3: the order of the stabilizer and the postprocessor\<close>

text \<open>
  Claim C3 says the postprocessor runs before the stabilizer's transition, so that the
  remembered mask is a postprocessed one. The code runs the transition first, on the detection
  mask as detected (lines 89 to 95), and the postprocessor afterwards (lines 97 to 110).
  With a minimum area of 64, a one-pixel frame whose pixel is detected is remembered as the
  mask with that pixel set, while the postprocessed mask of the same frame is empty (and the
  frame comes back unrepaired).
\<close>

theorem postprocess_before_stabilizer_counterexample:
  "prev_mask (snd (inpaint_stable demo_env (demo_stable 64) (Some white) None))
     \<noteq> Some (postprocess demo_env (demo_stable 64) [[True]]) \<and>
   prev_mask (snd (inpaint_stable demo_env (demo_stable 64) (Some white) None)) = Some [[True]] \<and>
   map_option final_mask (last_debug (snd (inpaint_stable demo_env (demo_stable 64) (Some white) None)))
     = Some (astype_u8 (postprocess demo_env (demo_stable 64) [[True]])) \<and>
   postprocess demo_env (demo_stable 64) [[True]] = [[False]] \<and>
   fst (inpaint_stable demo_env (demo_stable 64) (Some white) None) = Inr white"
  by code_simp

text \<open>
  Claim C3, amended. For every frame the session-scoped pipeline processes, the stabilizer's
  transition is applied to the detection mask first, and the postprocessor (small-component
  removal when the minimum area is above one, then the morphology: close, then dilate) is
  applied afterwards to the mask the stabilizer chose, giving the mask the fill stage runs on,
  which a call that returns records as the final mask of its debug record. The mask the
  stabilizer remembers is the detection mask as detected; a persisted mask is postprocessed
  on every frame that reuses it.
\<close>

theorem stabilizer_before_postprocess:
  assumes "channels img = 3" "detect_mask e self img = Inr dm"
  shows "stable_masks e self (Some img) =
           (Inr (dm, postprocess e self (fst (temporal_persistence self dm))),
            snd (temporal_persistence self dm))
       \<and> (\<forall>repaired. fst (inpaint_stable e self (Some img) prior) = Inr repaired \<longrightarrow>
            map_option final_mask (last_debug (snd (inpaint_stable e self (Some img) prior)))
              = Some (astype_u8 (postprocess e self (fst (temporal_persistence self dm)))))
       \<and> (any2 dm \<longrightarrow>
            prev_mask (snd (inpaint_stable e self (Some img) prior)) = Some dm)
       \<and> (\<not> any2 dm \<and> prev_mask self = Some pm \<and> 0 < prev_ttl self \<longrightarrow>
            fst (temporal_persistence self dm) = pm \<and>
            prev_mask (snd (inpaint_stable e self (Some img) prior)) = Some pm)
       \<and> postprocess e self m =
            morphology e self
              (if 1 < min_area self then filter_small_components e m (min_area self) else m)
       \<and> (0 < mask_close self \<and> 0 < mask_dilate self \<longrightarrow>
            morphology e self m =
              (let k = max (mask_close self) (mask_dilate self);
                   kernel = cv_getStructuringElement e (k * 2 + 1, k * 2 + 1)
               in gt0 (cv_dilate e (cv_morph_close e (times255 (astype_u8 m)) kernel) kernel)))"
proof -
  have pp: "postprocess e (snd (temporal_persistence self dm)) = postprocess e self"
    by (intro ext postprocess_cong) (simp_all add: temporal_persistence_fields)
  obtain used self' where tp: "temporal_persistence self dm = (used, self')"
    by (cases "temporal_persistence self dm") auto
  have 1: "stable_masks e self (Some img) =
           (Inr (dm, postprocess e self (fst (temporal_persistence self dm))),
            snd (temporal_persistence self dm))"
    using assms pp by (simp add: stable_masks_def tp)
  note fr = inpaint_stable_frame[OF assms tp, of prior]
  have 2: "\<forall>repaired. fst (inpaint_stable e self (Some img) prior) = Inr repaired \<longrightarrow>
            map_option final_mask (last_debug (snd (inpaint_stable e self (Some img) prior)))
              = Some (astype_u8 (postprocess e self (fst (temporal_persistence self dm))))"
    by (auto simp: fr(1,4) tp debug_of_def split: sum.splits)
  have 3: "any2 dm \<longrightarrow> prev_mask (snd (inpaint_stable e self (Some img) prior)) = Some dm"
    using tp by (auto simp: fr(2) temporal_persistence_def split: if_splits)
  have 4: "\<not> any2 dm \<and> prev_mask self = Some pm \<and> 0 < prev_ttl self \<longrightarrow>
            fst (temporal_persistence self dm) = pm \<and>
            prev_mask (snd (inpaint_stable e self (Some img) prior)) = Some pm"
    using tp by (auto simp: fr(2) temporal_persistence_def split: if_splits)
  have 5: "postprocess e self m =
            morphology e self
              (if 1 < min_area self then filter_small_components e m (min_area self) else m)"
    by (simp add: postprocess_def)
  have 6: "0 < mask_close self \<and> 0 < mask_dilate self \<longrightarrow>
            morphology e self m =
              (let k = max (mask_close self) (mask_dilate self);
                   kernel = cv_getStructuringElement e (k * 2 + 1, k * 2 + 1)
               in gt0 (cv_dilate e (cv_morph_close e (times255 (astype_u8 m)) kernel) kernel))"
    by (auto simp: morphology_def Let_def)
  show ?thesis using 1 2 3 4 5 6 by blast
qed

theorem stabilizer_before_postprocess_witness:
  "channels white = 3 \<and> detect_mask demo_env (demo_stable 64) white = Inr [[True]] \<and>
   stable_masks demo_env (demo_stable 64) (Some white) =
     (Inr ([[True]], [[False]]), (demo_stable 64)\<lparr>prev_mask := Some [[True]], prev_ttl := 2\<rparr>)"
proof -
  have h: "channels white = 3" "detect_mask demo_env (demo_stable 64) white = Inr [[True]]"
    by code_simp+
  have tp: "temporal_persistence (demo_stable 64) [[True]] =
     ([[True]], (demo_stable 64)\<lparr>prev_mask := Some [[True]], prev_ttl := 2\<rparr>)"
    by code_simp
  have pp: "postprocess demo_env (demo_stable 64) [[True]] = [[False]]"
    by code_simp
  show ?thesis
    using h stabilizer_before_postprocess[OF h, THEN conjunct1] by (simp add: tp pp)
qed

subsection \<open>C4: the region of interest\<close>

lemma roi_bounds_single:
  assumes "nonzero m = [(y, x)]"
  shows "roi_bounds self h w m =
     (max (int y - roi_margin self) 0, min (int y + roi_margin self) (int h - 1),
      max (int x - roi_margin self) 0, min (int x + roi_margin self) (int w - 1))"
  by (simp add: roi_bounds_def assms Let_def)

lemma fill_roi_degenerate:
  assumes "any2 m" "roi_bounds self (height img) (width img) m = (y0, y1, x0, x1)"
    "y1 \<le> y0 \<or> x1 \<le> x0"
  shows "fill_roi e self img m =
     (if shape2 (times255 (astype_u8 m)) = shape2 img
      then Inr (cv_inpaint e img (times255 (astype_u8 m)) (inpaint_radius self) (inpaint_flags self),
                [0, int (height img) - 1, 0, int (width img) - 1])
      else Inl CvError)"
  using assms by (auto simp: fill_roi_def cv2_inpaint_def)

lemma fill_roi_crop:
  assumes "any2 m" "roi_bounds self (height img) (width img) m = (y0, y1, x0, x1)"
    "y0 < y1" "x0 < x1"
  shows "fill_roi e self img m =
     (if shape2 (slice2 (nat y0) (nat (y1 + 1)) (nat x0) (nat (x1 + 1)) (times255 (astype_u8 m)))
           = shape2 (slice2 (nat y0) (nat (y1 + 1)) (nat x0) (nat (x1 + 1)) img)
      then Inr (assign_slice2 (nat y0) (nat x0)
                  (cv_inpaint e (slice2 (nat y0) (nat (y1 + 1)) (nat x0) (nat (x1 + 1)) img)
                     (slice2 (nat y0) (nat (y1 + 1)) (nat x0) (nat (x1 + 1))
                        (times255 (astype_u8 m)))
                     (inpaint_radius self) (inpaint_flags self))
                  img,
                [y0, y1, x0, x1])
      else Inl CvError)"
  using assms by (auto simp: fill_roi_def Let_def cv2_inpaint_def)

lemma nonzero_dot5: "nonzero dot5 = [(2, 3)]"
  by code_simp

text \<open>
  Claim C4. In the fill stage of the stable pipeline (lines 112 to 133), with margin
  \<open>g = roi_margin\<close> on a frame of \<open>h\<close> rows and \<open>w\<close> columns: for a final mask whose only
  set pixel is (y, x) the computed bounds are
  \<open>[max(y-g, 0), min(y+g, h-1)] x [max(x-g, 0), min(x+g, w-1)]\<close>; for a mask with no set
  pixel no bounds are computed, whatever the margin: the frame is returned as it is, with the
  bbox \<open>[0, 0, 0, 0]\<close>; for a mask with a set pixel whose box is degenerate
  (\<open>y1 \<le> y0\<close> or \<open>x1 \<le> x0\<close>) the fill operator is run on the whole frame with the whole
  mask; otherwise it is run on the crop of frame and mask, and the result is written back
  into the copy of the frame at the crop. In both cases the call is \<open>cv2.inpaint\<close>'s: it
  raises when the mask it is given has not the height and width of the image it is given.
\<close>

theorem roi_reduction:
  "(nonzero m = [(y, x)] \<longrightarrow>
      any2 m \<and>
      roi_bounds self h w m =
        (max (int y - roi_margin self) 0, min (int y + roi_margin self) (int h - 1),
         max (int x - roi_margin self) 0, min (int x + roi_margin self) (int w - 1))) \<and>
   (\<not> any2 m \<longrightarrow> fill_roi e self img m = Inr (img, [0, 0, 0, 0])) \<and>
   (any2 m \<and> roi_bounds self (height img) (width img) m = (y0, y1, x0, x1) \<and>
    (y1 \<le> y0 \<or> x1 \<le> x0) \<longrightarrow>
      fill_roi e self img m =
        (if shape2 (times255 (astype_u8 m)) = shape2 img
         then Inr (cv_inpaint e img (times255 (astype_u8 m))
                     (inpaint_radius self) (inpaint_flags self),
                   [0, int (height img) - 1, 0, int (width img) - 1])
         else Inl CvError)) \<and>
   (any2 m \<and> roi_bounds self (height img) (width img) m = (y0, y1, x0, x1) \<and>
    y0 < y1 \<and> x0 < x1 \<longrightarrow>
      fill_roi e self img m =
        (if shape2 (slice2 (nat y0) (nat (y1 + 1)) (nat x0) (nat (x1 + 1))
                      (times255 (astype_u8 m)))
              = shape2 (slice2 (nat y0) (nat (y1 + 1)) (nat x0) (nat (x1 + 1)) img)
         then Inr (assign_slice2 (nat y0) (nat x0)
                     (cv_inpaint e (slice2 (nat y0) (nat (y1 + 1)) (nat x0) (nat (x1 + 1)) img)
                        (slice2 (nat y0) (nat (y1 + 1)) (nat x0) (nat (x1 + 1))
                           (times255 (astype_u8 m)))
                        (inpaint_radius self) (inpaint_flags self))
                     img,
                   [y0, y1, x0, x1])
         else Inl CvError))"
  using roi_bounds_single[of m y x self h w] fill_roi_empty[of m e self img]
    fill_roi_degenerate[of m self img y0 y1 x0 x1 e] fill_roi_crop[of m self img y0 y1 x0 x1 e]
  by (auto simp: any2_nonzero)

theorem roi_reduction_witness:
  "nonzero dot5 = [(2, 3)] \<and>
   roi_bounds ((demo_stable 1)\<lparr>roi_margin := 1\<rparr>) 5 5 dot5 = (1, 3, 2, 4) \<and>
   \<not> any2 (zeros (5, 5)) \<and>
   fill_roi demo_env (demo_stable 1) frame5 (zeros (5, 5)) = Inr (frame5, [0, 0, 0, 0]) \<and>
   any2 dot5 \<and>
   roi_bounds ((demo_stable 1)\<lparr>roi_margin := 0\<rparr>) (height frame5) (width frame5) dot5 = (2, 2, 3, 3) \<and>
   shape2 (times255 (astype_u8 dot5)) = shape2 frame5 \<and>
   fill_roi demo_env ((demo_stable 1)\<lparr>roi_margin := 0\<rparr>) frame5 dot5 =
     Inr (frame5[2 := (frame5 ! 2)[3 := [0, 0, 0]]], [0, 4, 0, 4]) \<and>
   roi_bounds ((demo_stable 1)\<lparr>roi_margin := 1\<rparr>) (height frame5) (width frame5) dot5 = (1, 3, 2, 4) \<and>
   shape2 (slice2 1 4 2 5 (times255 (astype_u8 dot5))) = shape2 (slice2 1 4 2 5 frame5) \<and>
   fill_roi demo_env ((demo_stable 1)\<lparr>roi_margin := 1\<rparr>) frame5 dot5 =
     Inr (frame5[2 := (frame5 ! 2)[3 := [0, 0, 0]]], [1, 3, 2, 4]) \<and>
   any2 [[True]] \<and>
   roi_bounds ((demo_stable 1)\<lparr>roi_margin := 1\<rparr>) (height grey2) (width grey2) [[True]]
     = (0, 1, 0, 1) \<and>
   shape2 (slice2 0 2 0 2 (times255 (astype_u8 [[True]]))) \<noteq> shape2 (slice2 0 2 0 2 grey2) \<and>
   fill_roi demo_env ((demo_stable 1)\<lparr>roi_margin := 1\<rparr>) grey2 [[True]] = Inl CvError"
proof -
  have h1: "nonzero dot5 = [(2, 3)]" by code_simp
  have h2: "\<not> any2 (zeros (5, 5))" by simp
  have h3: "any2 dot5 \<and>
      roi_bounds ((demo_stable 1)\<lparr>roi_margin := 0\<rparr>) (height frame5) (width frame5) dot5 = (2, 2, 3, 3) \<and>
      ((2::int) \<le> 2 \<or> (3::int) \<le> 3)" by code_simp
  have h4: "any2 dot5 \<and>
      roi_bounds ((demo_stable 1)\<lparr>roi_margin := 1\<rparr>) (height frame5) (width frame5) dot5 = (1, 3, 2, 4) \<and>
      (1::int) < 3 \<and> (2::int) < 4" by code_simp
  have e3: "cv_inpaint demo_env frame5 (times255 (astype_u8 dot5))
              (inpaint_radius ((demo_stable 1)\<lparr>roi_margin := 0\<rparr>))
              (inpaint_flags ((demo_stable 1)\<lparr>roi_margin := 0\<rparr>))
            = frame5[2 := (frame5 ! 2)[3 := [0, 0, 0]]]" by code_simp
  have e4: "assign_slice2 (nat 1) (nat 2)
           (cv_inpaint demo_env (slice2 (nat 1) (nat (3 + 1)) (nat 2) (nat (4 + 1)) frame5)
              (slice2 (nat 1) (nat (3 + 1)) (nat 2) (nat (4 + 1)) (times255 (astype_u8 dot5)))
              (inpaint_radius ((demo_stable 1)\<lparr>roi_margin := 1\<rparr>))
              (inpaint_flags ((demo_stable 1)\<lparr>roi_margin := 1\<rparr>)))
           frame5 = frame5[2 := (frame5 ! 2)[3 := [0, 0, 0]]]" by code_simp
  note a = roi_reduction[THEN conjunct1, rule_format, OF h1,
      of "(demo_stable 1)\<lparr>roi_margin := 1\<rparr>" 5 5]
  note b = roi_reduction[THEN conjunct2, THEN conjunct1, rule_format, OF h2,
      of demo_env "demo_stable 1" frame5]
  note c = roi_reduction[THEN conjunct2, THEN conjunct2, THEN conjunct1, rule_format, OF h3,
      of demo_env]
  note d = roi_reduction[THEN conjunct2, THEN conjunct2, THEN conjunct2, rule_format, OF h4,
      of demo_env]
  have h5: "any2 [[True]] \<and>
      roi_bounds ((demo_stable 1)\<lparr>roi_margin := 1\<rparr>) (height grey2) (width grey2) [[True]]
        = (0, 1, 0, 1) \<and>
      (0::int) < 1 \<and> (0::int) < 1" by code_simp
  note d' = roi_reduction[THEN conjunct2, THEN conjunct2, THEN conjunct2, rule_format, OF h5,
      of demo_env]
  have s3: "shape2 (times255 (astype_u8 dot5)) = shape2 frame5" by code_simp
  have s4: "shape2 (slice2 (nat 1) (nat (3 + 1)) (nat 2) (nat (4 + 1)) (times255 (astype_u8 dot5)))
      = shape2 (slice2 (nat 1) (nat (3 + 1)) (nat 2) (nat (4 + 1)) frame5)" by code_simp
  have s5: "shape2 (slice2 (nat 0) (nat (1 + 1)) (nat 0) (nat (1 + 1)) (times255 (astype_u8 [[True]])))
      \<noteq> shape2 (slice2 (nat 0) (nat (1 + 1)) (nat 0) (nat (1 + 1)) grey2)" by code_simp
  have n: "nat 1 = 1" "nat (3 + 1) = 4" "nat 2 = 2" "nat (4 + 1) = 5" "nat 0 = 0"
    "nat (1 + 1) = 2" by simp_all
  have hw: "height frame5 = 5" "width frame5 = 5" by code_simp+
  have c': "fill_roi demo_env ((demo_stable 1)\<lparr>roi_margin := 0\<rparr>) frame5 dot5 =
     Inr (frame5[2 := (frame5 ! 2)[3 := [0, 0, 0]]], [0, 4, 0, 4])"
    using c by (simp only: s3 e3 if_True simp_thms hw) simp
  have d4: "fill_roi demo_env ((demo_stable 1)\<lparr>roi_margin := 1\<rparr>) frame5 dot5 =
     Inr (frame5[2 := (frame5 ! 2)[3 := [0, 0, 0]]], [1, 3, 2, 4])"
    using d by (simp only: s4 e4 if_True simp_thms)
  have d5: "fill_roi demo_env ((demo_stable 1)\<lparr>roi_margin := 1\<rparr>) grey2 [[True]] = Inl CvError"
    using d' s5 by (simp only: if_False simp_thms)
  show ?thesis
    using h1 h2 h3 h4 h5 a b c' d4 d5 s3 s4[unfolded n] s5[unfolded n] by (simp add: hw)
qed

subsection \<open>C2: the union of the contributing masks\<close>

text \<open>
  Claim C2 says that no pixel of a surviving detection, of the hint mask or of the persisted
  mask is dropped from the mask handed to the fill operator. In \<open>RTMDetInpainter.inpaint\<close>
  the branch of line 138 (a hint mask with a set pixel, and no crop because the padded box
  of the hint is at most 3 pixels high or wide, which is so on every frame of at most 3 rows
  or columns) takes the hint mask alone as the union and drops the detection. On the frame
  of 2 x 2 pixels below the detector reports the pixel (1, 1): without a hint that pixel is
  handed to the fill operator; with a hint at (0, 0) only the hint's pixel is.
\<close>

theorem detection_dropped_on_small_frame:
  "inferencer demo_env (cvtColor_BGR2RGB frame2)
     = Inr (Some [\<lparr>p_masks = [Some [[False, False], [False, True]]], p_labels = [0],
                     p_scores = Some [9 / 10]\<rparr>]) \<and>
   build_combined_mask demo_env demo_base
       \<lparr>p_masks = [Some [[False, False], [False, True]]], p_labels = [0],
          p_scores = Some [9 / 10]\<rparr> (2, 2)
     = Inr [[False, False], [False, True]] \<and>
   prepare_prior demo_env frame2 (Some hint2) = (Some hint2, None, frame2, None) \<and>
   inpaint_call demo_env demo_base (Some frame2) None
     = Inr (ReturnInpaint [[0, 0], [0, 255]]) \<and>
   inpaint_call demo_env demo_base (Some frame2) (Some hint2)
     = Inr (ReturnInpaint [[255, 0], [0, 0]])"
  by code_simp

subsection \<open>C5: no detection\<close>

lemma prepare_prior_fst:
  "fst (prepare_prior e img prior_mask) =
     (case prior_mask of
        None \<Rightarrow> None
      | Some pm0 \<Rightarrow>
          let pm = (if shape2 pm0 \<noteq> (height img, width img)
                    then cv_resize_nearest e pm0 (width img, height img) else pm0)
          in if any2 (gt0 pm) then Some pm else None)"
  by (auto simp: prepare_prior_def Let_def split: option.splits prod.splits)

text \<open>
  Claim C5. In \<open>RTMDetInpainter.inpaint\<close> on a frame of three channels, when the inference
  on the working image does not raise and gives no prediction, or a prediction whose
  combined mask (the detections that survive the label and score filters) has no set pixel:
  the method returns the fallback on the hint mask. If a hint mask of the frame's shape with a
  set pixel was supplied, the fill operator is called on the input frame with that hint mask
  as the fill mask; if no hint mask was supplied, or one with no set pixel, the frame is
  returned as it is.
\<close>

theorem empty_detection_fallback:
  assumes "channels image_bgr = 3"
    and "prepare_prior e image_bgr prior_mask = (prior, crop_bounds, working, prior_roi_mask)"
    and "working_input e self (width image_bgr) (height image_bgr) working
           = (working_resized, infer_w, infer_h)"
    and "inferencer e (cvtColor_BGR2RGB working_resized) = Inr result"
    and "case result of
           None \<Rightarrow> True
         | Some [] \<Rightarrow> True
         | Some (p # _) \<Rightarrow>
             (\<exists>cm. build_combined_mask e self p (infer_h, infer_w) = Inr cm \<and> \<not> any2 cm)"
  shows "inpaint_call e self (Some image_bgr) prior_mask = Inr (fallback prior)
       \<and> (prior_mask = Some hint \<and> shape2 hint = shape2 image_bgr \<and> any2 (gt0 hint) \<longrightarrow>
            inpaint_call e self (Some image_bgr) prior_mask = Inr (ReturnInpaint hint) \<and>
            inpaint e self (Some image_bgr) prior_mask
              = Inr (cv_inpaint e image_bgr hint (inpaint_radius self) (inpaint_flags self)))
       \<and> (prior_mask = None \<or>
           (prior_mask = Some hint \<and> shape2 hint = shape2 image_bgr \<and> \<not> any2 (gt0 hint)) \<longrightarrow>
            inpaint_call e self (Some image_bgr) prior_mask = Inr ReturnCopy \<and>
            inpaint e self (Some image_bgr) prior_mask = Inr image_bgr)"
proof -
  have call: "inpaint_call e self (Some image_bgr) prior_mask = Inr (fallback prior)"
    using assms
    by (auto simp: inpaint_call_def split: option.splits list.splits sum.splits)
  have p: "prior = fst (prepare_prior e image_bgr prior_mask)"
    by (simp add: assms(2))
  have a: "prior = Some hint"
    if "prior_mask = Some hint" "shape2 hint = shape2 image_bgr" "any2 (gt0 hint)"
    using that unfolding p prepare_prior_fst by (simp add: shape2_def)
  have b: "prior = None"
    if "prior_mask = None \<or>
        (prior_mask = Some hint \<and> shape2 hint = shape2 image_bgr \<and> \<not> any2 (gt0 hint))"
    using that unfolding p prepare_prior_fst by (auto simp: shape2_def)
  show ?thesis
    using call a b by (auto simp: inpaint_def fallback_def perform_def)
qed

theorem empty_detection_fallback_witness:
  "channels grey = 3 \<and>
   prepare_prior demo_env grey (Some [[255]]) = (Some [[255]], None, grey, None) \<and>
   working_input demo_env demo_base (width grey) (height grey) grey = (grey, 1, 1) \<and>
   inferencer demo_env (cvtColor_BGR2RGB grey)
     = Inr (Some [\<lparr>p_masks = [Some [[False]]], p_labels = [0], p_scores = Some [9 / 10]\<rparr>]) \<and>
   build_combined_mask demo_env demo_base
     \<lparr>p_masks = [Some [[False]]], p_labels = [0], p_scores = Some [9 / 10]\<rparr> (1, 1) = Inr [[False]] \<and>
   inpaint_call demo_env demo_base (Some grey) (Some [[255]]) = Inr (ReturnInpaint [[255]]) \<and>
   inpaint demo_env demo_base (Some grey) (Some [[255]]) = Inr black \<and>
   inpaint demo_env demo_base (Some grey) (Some [[0]]) = Inr grey \<and>
   inpaint demo_env demo_base (Some grey) None = Inr grey"
proof -
  have h1: "channels grey = 3" by code_simp
  have h2: "prepare_prior demo_env grey (Some [[255]]) = (Some [[255]], None, grey, None)"
    by code_simp
  have h2': "prepare_prior demo_env grey (Some [[0]]) = (None, None, grey, None)"
    by code_simp
  have h2'': "prepare_prior demo_env grey None = (None, None, grey, None)"
    by code_simp
  have h3: "working_input demo_env demo_base (width grey) (height grey) grey = (grey, 1, 1)"
    by code_simp
  have h4: "inferencer demo_env (cvtColor_BGR2RGB grey)
     = Inr (Some [\<lparr>p_masks = [Some [[False]]], p_labels = [0], p_scores = Some [9 / 10]\<rparr>])"
    by code_simp
  have bc: "build_combined_mask demo_env demo_base
     \<lparr>p_masks = [Some [[False]]], p_labels = [0], p_scores = Some [9 / 10]\<rparr> (1, 1) = Inr [[False]]"
    by code_simp
  have h5: "case Some [\<lparr>p_masks = [Some [[False]]], p_labels = [0], p_scores = Some [9 / 10]\<rparr>] of
           None \<Rightarrow> True
         | Some [] \<Rightarrow> True
         | Some (p # _) \<Rightarrow>
             (\<exists>cm. build_combined_mask demo_env demo_base p (1, 1) = Inr cm \<and> \<not> any2 cm)"
    unfolding option.case list.case
    by (intro exI[of _ "[[False]]"] conjI bc) (simp add: any2_def)
  have e: "cv_inpaint demo_env grey [[255]] (inpaint_radius demo_base) (inpaint_flags demo_base)
     = black" by code_simp
  have s: "shape2 [[255::byte]] = shape2 grey" "shape2 [[0::byte]] = shape2 grey"
    "any2 (gt0 [[255]])" "\<not> any2 (gt0 [[0]])" by code_simp+
  note a = empty_detection_fallback[OF h1 h2 h3 h4 h5, of "[[255]]"]
  note b = empty_detection_fallback[OF h1 h2' h3 h4 h5, of "[[0]]"]
  note c = empty_detection_fallback[OF h1 h2'' h3 h4 h5, of "[[0]]"]
  show ?thesis
    using h1 h2 h3 h4 bc a b c s by (simp add: e fallback_def)
qed

subsection \<open>The framing of the servers\<close>

lemma be32_digits:
  fixes n :: nat
  assumes "n < 2 ^ 32"
  shows "((n div 2 ^ 24 mod 256 * 256 + n div 2 ^ 16 mod 256) * 256 + n div 2 ^ 8 mod 256) * 256
           + n mod 256 = n"
proof -
  have a: "n div 2 ^ 24 mod 256 = n div 2 ^ 24"
    using assms by (simp add: less_mult_imp_div_less)
  have b: "n div 2 ^ 16 = n div 2 ^ 24 * 256 + n div 2 ^ 16 mod 256"
    using div_mult_mod_eq[of "n div 2 ^ 16" 256] by (simp add: div_mult2_eq[symmetric])
  have c: "n div 2 ^ 8 = n div 2 ^ 16 * 256 + n div 2 ^ 8 mod 256"
    using div_mult_mod_eq[of "n div 2 ^ 8" 256] by (simp add: div_mult2_eq[symmetric])
  have d: "n = n div 2 ^ 8 * 256 + n mod 256"
    using div_mult_mod_eq[of n 256] by simp
  show ?thesis
    using a b c d by presburger
qed

lemma length_be32 [simp]: "length (be32 n) = 4"
  by (simp add: be32_def)

lemma unpack_be32: "n < 2 ^ 32 \<Longrightarrow> unpack_u32 (be32 n) = n"
  using be32_digits[of n] by (simp add: be32_def unpack_u32_def unat_of_nat)

lemma send_frame_small: "length payload < 2 ^ 32 \<Longrightarrow> send_frame payload = Some (be32 (length payload) @ payload)"
  by (simp add: send_frame_def pack_u32_def)

lemma handle_client_request:
  assumes "payload \<noteq> []" "length payload < 2 ^ 32" "length mask_bytes < 2 ^ 32"
  shows "handle_client e q inp (request payload mask_bytes @ rest) =
     (case serve_frame e q inp payload of
        (None, inp') \<Rightarrow> ([], StructError, inp')
      | (Some sent, inp') \<Rightarrow> then_continue sent (handle_client e q inp' rest))"
proof -
  have r1: "recv_exact (be32 (length payload) @ be32 (length mask_bytes) @ payload @ mask_bytes @ rest) 8
      = Some (be32 (length payload) @ be32 (length mask_bytes), payload @ mask_bytes @ rest)"
    by (simp add: recv_exact_def)
  have r2: "recv_exact (payload @ mask_bytes @ rest) (length payload)
      = Some (payload, mask_bytes @ rest)"
    by (simp add: recv_exact_def)
  have r3: "recv_exact (mask_bytes @ rest) (length mask_bytes) = Some (mask_bytes, rest)"
    by (simp add: recv_exact_def)
  show ?thesis
    unfolding request_def append_assoc
    by (subst handle_client.simps)
       (auto simp: r1 r2 r3 unpack_be32[OF assms(2)] unpack_be32[OF assms(3)] assms(1) Let_def
          then_continue_def split: prod.splits option.splits)
qed

lemma handle_client_quest_request:
  assumes "payload \<noteq> []" "length payload < 2 ^ 32"
  shows "handle_client_quest e q inp (request_quest payload @ rest) =
     (case serve_frame_quest e q inp payload of
        None \<Rightarrow> ([], StructError)
      | Some sent \<Rightarrow> then_continue sent (handle_client_quest e q inp rest))"
proof -
  have r1: "recv_exact (be32 (length payload) @ payload @ rest) 4
      = Some (be32 (length payload), payload @ rest)"
    by (simp add: recv_exact_def)
  have r2: "recv_exact (payload @ rest) (length payload) = Some (payload, rest)"
    by (simp add: recv_exact_def)
  show ?thesis
    unfolding request_quest_def append_assoc
    by (subst handle_client_quest.simps)
       (auto simp: r1 r2 unpack_be32[OF assms(2)] assms(1) Let_def then_continue_def
          split: prod.splits option.splits)
qed

lemma hc_nil: "handle_client e q inp [] = ([], Disconnected, inp)"
  by (subst handle_client.simps) (simp add: recv_exact_def)

lemma hcq_nil: "handle_client_quest e q inp [] = ([], Disconnected)"
  by (subst handle_client_quest.simps) (simp add: recv_exact_def)

lemma serve_frame_decode_fails:
  "decode_image e payload = None \<Longrightarrow> serve_frame e q inp payload = (send_frame payload, inp)"
  by (simp add: serve_frame_def)

lemma serve_frame_encode_fails:
  assumes "decode_image e payload = Some img" "inpaint_stable e inp (Some img) None = (res, inp')"
    "encode_image e (case res of Inr processed \<Rightarrow> processed | Inl exc \<Rightarrow> img) q = None"
  shows "serve_frame e q inp payload = (send_frame payload, inp')"
  using assms by (cases res) (simp_all add: serve_frame_def)

subsection \<open>C8: the echo on a codec failure\<close>

text \<open>
  Claim C8. For every request whose image payload is not empty (and whose lengths fit in four
  bytes), in both servers: if the image bytes fail to decode, or the repaired frame fails to
  encode, the handler sends the four-byte length of the received payload followed by the
  payload itself, unchanged, and goes on with the rest of the connection: what it sends
  afterwards is what the handler sends for the remaining bytes. The state of the inpainter it
  goes on with is the one before the frame (decode failure) or the one after the pipeline
  ran (encode failure).
\<close>

theorem echo_on_codec_failure:
  assumes "payload \<noteq> []" "length payload < 2 ^ 32" "length mask_bytes < 2 ^ 32"
  shows "(decode_image e payload = None \<longrightarrow>
            handle_client e q inp (request payload mask_bytes @ rest)
              = then_continue (be32 (length payload) @ payload) (handle_client e q inp rest) \<and>
            handle_client_quest e q b (request_quest payload @ rest)
              = then_continue (be32 (length payload) @ payload) (handle_client_quest e q b rest))
       \<and> (decode_image e payload = Some img \<and>
          inpaint_stable e inp (Some img) None = (res, inp') \<and>
          encode_image e (case res of Inr processed \<Rightarrow> processed | Inl exc \<Rightarrow> img) q = None \<longrightarrow>
            handle_client e q inp (request payload mask_bytes @ rest)
              = then_continue (be32 (length payload) @ payload) (handle_client e q inp' rest))
       \<and> (decode_image e payload = Some img \<and>
          encode_image e (case inpaint e b (Some img) None of
                            Inr processed \<Rightarrow> processed | Inl exc \<Rightarrow> img) q = None \<longrightarrow>
            handle_client_quest e q b (request_quest payload @ rest)
              = then_continue (be32 (length payload) @ payload) (handle_client_quest e q b rest))
       \<and> unpack_u32 (be32 (length payload)) = length payload"
proof (intro conjI impI)
  assume d: "decode_image e payload = None"
  show "handle_client e q inp (request payload mask_bytes @ rest)
      = then_continue (be32 (length payload) @ payload) (handle_client e q inp rest)"
    by (simp add: handle_client_request[OF assms] serve_frame_decode_fails[OF d]
        send_frame_small[OF assms(2)])
  show "handle_client_quest e q b (request_quest payload @ rest)
      = then_continue (be32 (length payload) @ payload) (handle_client_quest e q b rest)"
    by (simp add: handle_client_quest_request[OF assms(1,2)] serve_frame_quest_def d
        send_frame_small[OF assms(2)])
next
  assume h: "decode_image e payload = Some img \<and>
          inpaint_stable e inp (Some img) None = (res, inp') \<and>
          encode_image e (case res of Inr processed \<Rightarrow> processed | Inl exc \<Rightarrow> img) q = None"
  then have "serve_frame e q inp payload = (send_frame payload, inp')"
    using serve_frame_encode_fails by blast
  then show "handle_client e q inp (request payload mask_bytes @ rest)
      = then_continue (be32 (length payload) @ payload) (handle_client e q inp' rest)"
    by (simp add: handle_client_request[OF assms] send_frame_small[OF assms(2)])
next
  assume h: "decode_image e payload = Some img \<and>
          encode_image e (case inpaint e b (Some img) None of
                            Inr processed \<Rightarrow> processed | Inl exc \<Rightarrow> img) q = None"
  then show "handle_client_quest e q b (request_quest payload @ rest)
      = then_continue (be32 (length payload) @ payload) (handle_client_quest e q b rest)"
    by (simp add: handle_client_quest_request[OF assms(1,2)] serve_frame_quest_def
        send_frame_small[OF assms(2)])
next
  show "unpack_u32 (be32 (length payload)) = length payload"
    by (rule unpack_be32[OF assms(2)])
qed

theorem echo_on_codec_failure_witness:
  "[1, 2] \<noteq> ([] :: byte list) \<and> length [1, 2 :: byte] < 2 ^ 32 \<and> length [7 :: byte] < 2 ^ 32 \<and>
   decode_image demo_env [1, 2] = None \<and>
   handle_client demo_env 80 (demo_stable 1) (request [1, 2] [7] @ [])
     = ([0, 0, 0, 2, 1, 2], Disconnected, demo_stable 1) \<and>
   handle_client_quest demo_env 80 demo_base (request_quest [1, 2] @ [])
     = ([0, 0, 0, 2, 1, 2], Disconnected) \<and>
   [9, 9, 9] \<noteq> ([] :: byte list) \<and> length [9, 9, 9 :: byte] < 2 ^ 32 \<and>
   decode_image demo_env [9, 9, 9] = Some grey \<and>
   inpaint_stable demo_env (demo_stable 1) (Some grey) None
     = (Inr grey, (demo_stable 1)\<lparr>last_debug := Some (debug_of [[False]] [[False]] [0, 0, 0, 0])\<rparr>) \<and>
   encode_image demo_env grey (- 1) = None \<and>
   handle_client demo_env (- 1) (demo_stable 1) (request [9, 9, 9] [7] @ [])
     = ([0, 0, 0, 3, 9, 9, 9], Disconnected,
        (demo_stable 1)\<lparr>last_debug := Some (debug_of [[False]] [[False]] [0, 0, 0, 0])\<rparr>) \<and>
   inpaint demo_env demo_base (Some grey) None = Inr grey \<and>
   handle_client_quest demo_env (- 1) demo_base (request_quest [9, 9, 9] @ [])
     = ([0, 0, 0, 3, 9, 9, 9], Disconnected)"
proof -
  have a: "[1, 2] \<noteq> ([] :: byte list)" "length [1, 2 :: byte] < 2 ^ 32" "length [7 :: byte] < 2 ^ 32"
    by simp_all
  have b: "[9, 9, 9] \<noteq> ([] :: byte list)" "length [9, 9, 9 :: byte] < 2 ^ 32" "length [7 :: byte] < 2 ^ 32"
    by simp_all
  have d1: "decode_image demo_env [1, 2] = None" by code_simp
  have d2: "decode_image demo_env [9, 9, 9] = Some grey" by code_simp
  have i2: "inpaint_stable demo_env (demo_stable 1) (Some grey) None
     = (Inr grey, (demo_stable 1)\<lparr>last_debug := Some (debug_of [[False]] [[False]] [0, 0, 0, 0])\<rparr>)"
    by code_simp
  have e2: "encode_image demo_env grey (- 1) = None" by code_simp
  have i3: "inpaint demo_env demo_base (Some grey) None = Inr grey" by code_simp
  have l: "be32 (length [1, 2 :: byte]) @ [1, 2] = [0, 0, 0, 2, 1, 2]"
    "be32 (length [9, 9, 9 :: byte]) @ [9, 9, 9] = [0, 0, 0, 3, 9, 9, 9]"
    by (simp_all add: be32_def)
  note t1 = echo_on_codec_failure[OF a, THEN conjunct1, rule_format, OF d1,
      of 80 "demo_stable 1" "[]" demo_base]
  have h2: "decode_image demo_env [9, 9, 9] = Some grey \<and>
      inpaint_stable demo_env (demo_stable 1) (Some grey) None
        = (Inr grey, (demo_stable 1)\<lparr>last_debug := Some (debug_of [[False]] [[False]] [0, 0, 0, 0])\<rparr>) \<and>
      encode_image demo_env (case Inr grey of Inr processed \<Rightarrow> processed | Inl (exc::error) \<Rightarrow> grey) (- 1) = None"
    using d2 i2 e2 by simp
  note t2 = echo_on_codec_failure[OF b, THEN conjunct2, THEN conjunct1, rule_format, OF h2, of "[]"]
  have h3: "decode_image demo_env [9, 9, 9] = Some grey \<and>
          encode_image demo_env (case inpaint demo_env demo_base (Some grey) None of
                            Inr processed \<Rightarrow> processed | Inl exc \<Rightarrow> grey) (- 1) = None"
    using d2 i3 e2 by simp
  note t3 = echo_on_codec_failure[OF b, THEN conjunct2, THEN conjunct2, THEN conjunct1,
      rule_format, OF h3, of "[]"]
  show ?thesis
    using a b d1 d2 i2 e2 i3 t1 t2 t3
    by (simp add: hc_nil hcq_nil then_continue_def be32_def)
qed

subsection \<open>C7: a detector that raises\<close>

lemma detector_raises:
  assumes "inferencer e (cvtColor_BGR2RGB (fst (stable_working e self img))) = Inl err"
  shows "detect_mask e self img = Inl err"
proof -
  obtain working infer_w infer_h where w: "stable_working e self img = (working, infer_w, infer_h)"
    by (cases "stable_working e self img") auto
  show ?thesis
    using assms by (simp add: detect_mask_def Let_def w)
qed

lemma inpaint_stable_detector_raises:
  assumes "channels img = 3"
    "inferencer e (cvtColor_BGR2RGB (fst (stable_working e self img))) = Inl err"
  shows "inpaint_stable e self (Some img) prior = (Inl err, self)"
  using detector_raises[OF assms(2)] assms(1)
  by (simp add: inpaint_stable_def stable_masks_def)

text \<open>
  Claim C7. If the detector raises on the working image of a decoded frame of three channels,
  \<open>RTMDetInpainterStable.inpaint\<close> raises with the object unchanged (the remembered mask and
  the remaining persistence are what they were: the frame is not counted as an empty
  detection), the handler takes the decoded input frame as the processed frame, encodes and
  sends it (or echoes the payload if the encoding fails), and goes on with the rest of the
  connection in the unchanged state.
\<close>

theorem detector_failure_passthrough:
  assumes "payload \<noteq> []" "length payload < 2 ^ 32" "length mask_bytes < 2 ^ 32"
    and "decode_image e payload = Some img" "channels img = 3"
    and "inferencer e (cvtColor_BGR2RGB (fst (stable_working e inp img))) = Inl err"
  shows "inpaint_stable e inp (Some img) None = (Inl err, inp)
       \<and> serve_frame e q inp payload =
           (send_frame (case encode_image e img q of Some encoded \<Rightarrow> encoded | None \<Rightarrow> payload),
            inp)
       \<and> (encode_image e img q = Some encoded \<and> length encoded < 2 ^ 32 \<longrightarrow>
            handle_client e q inp (request payload mask_bytes @ rest)
              = then_continue (be32 (length encoded) @ encoded) (handle_client e q inp rest))"
proof -
  have 1: "inpaint_stable e inp (Some img) None = (Inl err, inp)"
    by (rule inpaint_stable_detector_raises[OF assms(5,6)])
  have 2: "serve_frame e q inp payload =
           (send_frame (case encode_image e img q of Some encoded \<Rightarrow> encoded | None \<Rightarrow> payload),
            inp)"
    by (simp add: serve_frame_def assms(4) 1 split: option.splits)
  have 3: "handle_client e q inp (request payload mask_bytes @ rest)
              = then_continue (be32 (length encoded) @ encoded) (handle_client e q inp rest)"
    if "encode_image e img q = Some encoded" "length encoded < 2 ^ 32"
    using that by (simp add: handle_client_request[OF assms(1-3)] 2 send_frame_small)
  show ?thesis using 1 2 3 by blast
qed

theorem detector_failure_passthrough_witness:
  "[1, 2, 3] \<noteq> ([] :: byte list) \<and> length [1, 2, 3 :: byte] < 2 ^ 32 \<and> length [7 :: byte] < 2 ^ 32 \<and>
   decode_image demo_env [1, 2, 3] = Some [[[1, 2, 3]]] \<and> channels [[[1, 2, 3]]] = 3 \<and>
   inferencer demo_env
     (cvtColor_BGR2RGB (fst (stable_working demo_env
        ((demo_stable 1)\<lparr>prev_mask := Some [[True]], prev_ttl := 2\<rparr>) [[[1, 2, 3]]])))
     = Inl InferenceError \<and>
   encode_image demo_env [[[1, 2, 3]]] 80 = Some [1, 2, 3] \<and>
   inpaint_stable demo_env ((demo_stable 1)\<lparr>prev_mask := Some [[True]], prev_ttl := 2\<rparr>)
       (Some [[[1, 2, 3]]]) None
     = (Inl InferenceError, (demo_stable 1)\<lparr>prev_mask := Some [[True]], prev_ttl := 2\<rparr>) \<and>
   handle_client demo_env 80 ((demo_stable 1)\<lparr>prev_mask := Some [[True]], prev_ttl := 2\<rparr>)
       (request [1, 2, 3] [7] @ [])
     = ([0, 0, 0, 3, 1, 2, 3], Disconnected,
        (demo_stable 1)\<lparr>prev_mask := Some [[True]], prev_ttl := 2\<rparr>)"
proof -
  have a: "[1, 2, 3] \<noteq> ([] :: byte list)" "length [1, 2, 3 :: byte] < 2 ^ 32"
    "length [7 :: byte] < 2 ^ 32"
    by simp_all
  have d: "decode_image demo_env [1, 2, 3] = Some [[[1, 2, 3]]]" by code_simp
  have c: "channels [[[1, 2, 3]]] = 3" by code_simp
  have r: "inferencer demo_env
     (cvtColor_BGR2RGB (fst (stable_working demo_env
        ((demo_stable 1)\<lparr>prev_mask := Some [[True]], prev_ttl := 2\<rparr>) [[[1, 2, 3]]])))
     = Inl InferenceError" by code_simp
  have en0: "encode_image demo_env [[[1, 2, 3]]] 80 = Some [1, 2, 3]"
    by code_simp
  have en: "encode_image demo_env [[[1, 2, 3]]] 80 = Some [1, 2, 3] \<and> length [1, 2, 3 :: byte] < 2 ^ 32"
    using en0 by simp
  have l: "be32 (length [1, 2, 3 :: byte]) @ [1, 2, 3] = [0, 0, 0, 3, 1, 2, 3]"
    by (simp add: be32_def)
  note t = detector_failure_passthrough[where rest = "[]", OF a d c r]
  show ?thesis
    using a d c r en t[THEN conjunct1] t[THEN conjunct2, THEN conjunct2, rule_format, OF en]
    by (simp add: hc_nil then_continue_def be32_def)
qed

subsection \<open>C10: the hint mask of the stable pipeline\<close>

text \<open>
  Claim C10. \<open>RTMDetInpainterStable.inpaint\<close> does not read its \<open>prior_mask\<close> argument: on
  the same frame, object and collaborators, any two hint masks (or none) give the same
  result and the same object afterwards. The RTMDet-only server reads the mask payload of a
  request and discards it: two requests that differ only in the mask (its bytes or its
  length) are answered alike and leave the same state.
\<close>

theorem prior_mask_ignored:
  "inpaint_stable e self img p1 = inpaint_stable e self img p2 \<and>
   (payload \<noteq> [] \<and> length payload < 2 ^ 32 \<and> length m1 < 2 ^ 32 \<and> length m2 < 2 ^ 32 \<longrightarrow>
      handle_client e q inp (request payload m1 @ rest)
        = handle_client e q inp (request payload m2 @ rest))"
  by (simp add: inpaint_stable_def handle_client_request)

theorem prior_mask_ignored_witness:
  "[9, 9, 9] \<noteq> ([] :: byte list) \<and> length [9, 9, 9 :: byte] < 2 ^ 32 \<and>
   length [255 :: byte] < 2 ^ 32 \<and> length [0 :: byte] < 2 ^ 32 \<and>
   inpaint_stable demo_env (demo_stable 1) (Some white) (Some [[255]])
     = inpaint_stable demo_env (demo_stable 1) (Some white) None \<and>
   handle_client demo_env 80 (demo_stable 1) (request [9, 9, 9] [255] @ [])
     = handle_client demo_env 80 (demo_stable 1) (request [9, 9, 9] [0] @ [])"
proof -
  have h: "[9, 9, 9] \<noteq> ([] :: byte list) \<and> length [9, 9, 9 :: byte] < 2 ^ 32 \<and>
   length [255 :: byte] < 2 ^ 32 \<and> length [0 :: byte] < 2 ^ 32" by simp
  note t = prior_mask_ignored[of demo_env "demo_stable 1" "Some white" "Some [[255]]" None
      "[9, 9, 9]" "[255]" "[0]" 80 "demo_stable 1" "[]"]
  show ?thesis
    using h t[THEN conjunct1] t[THEN conjunct2, rule_format, OF h] by simp
qed

subsection \<open>Components and labellings\<close>

lemma fg_iff: "(y, x) \<in> fg m \<longleftrightarrow> y < length m \<and> x < length (m ! y) \<and> m ! y ! x"
  by (simp add: fg_def set_nonzero)

lemma finite_fg [simp]: "finite (fg m)"
  by (simp add: fg_def)

lemma connected8_in_fg:
  assumes "(p, q) \<in> connected8 m" "p \<in> fg m"
  shows "q \<in> fg m"
  using assms unfolding connected8_def
  by (induction rule: rtrancl_induct) auto

lemma component_subset: "p \<in> fg m \<Longrightarrow> component m p \<subseteq> fg m"
  by (auto simp: component_def dest: connected8_in_fg)

lemma component_self: "p \<in> component m p"
  by (simp add: component_def connected8_def)

lemma card_component_pos: "p \<in> fg m \<Longrightarrow> 0 < card (component m p)"
  using component_subset[of p m] component_self[of p m]
  by (metis card_gt_0_iff empty_iff finite_fg finite_subset)

lemma logical_or_shape:
  "map length a = map length b \<Longrightarrow> map length (logical_or a b) = map length a"
proof (induction a arbitrary: b)
  case Nil then show ?case by (simp add: logical_or_def)
next
  case (Cons r a)
  then obtain s b' where "b = s # b'" by (cases b) auto
  with Cons show ?case by (simp add: logical_or_def)
qed

lemma logical_or_nth:
  assumes "map length a = map length b" "y < length a" "x < length (a ! y)"
  shows "logical_or a b ! y ! x = (a ! y ! x \<or> b ! y ! x)"
proof -
  have la: "length a = length b" using assms(1) by (metis length_map)
  have lr: "length (a ! y) = length (b ! y)"
    using assms(1,2) la by (metis nth_map)
  show ?thesis
    using assms(2,3) la lr by (simp add: logical_or_def)
qed

lemma labels_eq_shape [simp]: "map length (labels_eq l i) = map length l"
  by (simp add: labels_eq_def)

lemma labels_eq_nth:
  "y < length l \<Longrightarrow> x < length (l ! y) \<Longrightarrow> labels_eq l i ! y ! x = (l ! y ! x = i)"
  by (simp add: labels_eq_def)

lemma fold_keep:
  assumes "map length acc = map length l"
  shows "map length (fold (\<lambda>i keep. if c i then logical_or keep (labels_eq l i) else keep) is acc)
           = map length l
       \<and> (\<forall>y x. y < length l \<and> x < length (l ! y) \<longrightarrow>
             fold (\<lambda>i keep. if c i then logical_or keep (labels_eq l i) else keep) is acc ! y ! x
               = (acc ! y ! x \<or> (\<exists>i \<in> set is. c i \<and> l ! y ! x = i)))"
  using assms
proof (induction "is" arbitrary: acc)
  case Nil
  then show ?case by simp
next
  case (Cons i "is")
  let ?acc' = "if c i then logical_or acc (labels_eq l i) else acc"
  have sh: "map length ?acc' = map length l"
    using Cons.prems by (simp add: logical_or_shape)
  have pt: "?acc' ! y ! x = (acc ! y ! x \<or> (c i \<and> l ! y ! x = i))"
    if "y < length l" "x < length (l ! y)" for y x
  proof -
    have "length acc = length l" using Cons.prems by (metis length_map)
    moreover have "length (acc ! y) = length (l ! y)"
      using Cons.prems that(1) calculation by (metis nth_map)
    ultimately show ?thesis
      using that Cons.prems by (simp add: logical_or_nth labels_eq_nth)
  qed
  from Cons.IH[OF sh] pt show ?case by auto
qed

lemma rect_shape: "rect m \<Longrightarrow> map length m = replicate (height m) (width m)"
proof -
  assume "rect m"
  then have "map length m = map (\<lambda>_. width m) m"
    by (intro map_cong) (auto simp: rect_def list_all_iff)
  then show ?thesis
    by (simp add: map_replicate_const height_def)
qed

lemma zeros_shape [simp]: "map length (zeros (h, w)) = replicate h w"
  by (simp add: zeros_def)

lemma astype_u8_dims [simp]:
  "height (astype_u8 m) = height m" "width (astype_u8 m) = width m"
  by (cases m; simp add: astype_u8_def height_def width_def)+

lemma fg_shape_cong:
  assumes "map length k = map length m"
    and "\<And>y x. y < length m \<Longrightarrow> x < length (m ! y) \<Longrightarrow> k ! y ! x = P (y, x)"
  shows "fg k = {p. fst p < length m \<and> snd p < length (m ! fst p) \<and> P p}"
proof -
  have l: "length k = length m" using assms(1) by (metis length_map)
  have r: "length (k ! y) = length (m ! y)" if "y < length m" for y
    using assms(1) l that by (metis nth_map)
  show ?thesis
    using l r assms(2) by (auto simp: fg_iff)
qed

lemma rect_empty: "rect m \<Longrightarrow> height m * width m = 0 \<Longrightarrow> fg m = {}"
proof -
  assume r: "rect m" and z: "height m * width m = 0"
  have False if "(y, x) \<in> fg m" for y x
  proof -
    from that have y: "y < length m" and x: "x < length (m ! y)"
      by (simp_all add: fg_iff)
    have "length (m ! y) = width m"
      using r y by (simp add: rect_def list_all_iff)
    with x y z show False
      by (simp add: height_def)
  qed
  then show ?thesis by auto
qed

lemma cc_labellingD:
  assumes "cc_labelling m (num, labels, area)"
  shows "map length labels = map length m"
    and "\<And>y x. y < length m \<Longrightarrow> x < length (m ! y) \<Longrightarrow>
           (label_at labels (y, x) = 0 \<longleftrightarrow> \<not> m ! y ! x)"
    and "\<And>y x. y < length m \<Longrightarrow> x < length (m ! y) \<Longrightarrow> label_at labels (y, x) < num"
    and "\<And>p q. p \<in> fg m \<Longrightarrow> q \<in> fg m \<Longrightarrow>
           (label_at labels p = label_at labels q \<longleftrightarrow> (p, q) \<in> connected8 m)"
    and "\<And>i. i < num \<Longrightarrow> area ! i =
           card {(y, x). y < length labels \<and> x < length (labels ! y) \<and> label_at labels (y, x) = i}"
proof -
  from assms have a: "map length labels = map length m"
    and b: "\<forall>y x. y < length m \<and> x < length (m ! y) \<longrightarrow>
           (label_at labels (y, x) = 0 \<longleftrightarrow> \<not> m ! y ! x) \<and> label_at labels (y, x) < num"
    and c: "\<forall>p \<in> fg m. \<forall>q \<in> fg m.
           label_at labels p = label_at labels q \<longleftrightarrow> (p, q) \<in> connected8 m"
    and d: "\<forall>i < num. area ! i =
           card {(y, x). y < length labels \<and> x < length (labels ! y) \<and> label_at labels (y, x) = i}"
    unfolding cc_labelling_def prod.case by blast+
  show "map length labels = map length m" by (rule a)
  show "\<And>y x. y < length m \<Longrightarrow> x < length (m ! y) \<Longrightarrow>
           (label_at labels (y, x) = 0 \<longleftrightarrow> \<not> m ! y ! x)" using b by blast
  show "\<And>y x. y < length m \<Longrightarrow> x < length (m ! y) \<Longrightarrow> label_at labels (y, x) < num"
    using b by blast
  show "\<And>p q. p \<in> fg m \<Longrightarrow> q \<in> fg m \<Longrightarrow>
           (label_at labels p = label_at labels q \<longleftrightarrow> (p, q) \<in> connected8 m)" using c by blast
  show "\<And>i. i < num \<Longrightarrow> area ! i =
           card {(y, x). y < length labels \<and> x < length (labels ! y) \<and> label_at labels (y, x) = i}"
    using d by blast
qed

lemma label_class_is_component:
  assumes cc: "cc_labelling m (num, labels, area)" and p: "p \<in> fg m"
  shows "{(y, x). y < length labels \<and> x < length (labels ! y) \<and>
            label_at labels (y, x) = label_at labels p} = component m p"
proof -
  note sh = cc_labellingD(1)[OF cc]
  note z = cc_labellingD(2)[OF cc]
  note eq = cc_labellingD(4)[OF cc p]
  have l: "length labels = length m" using sh by (metis length_map)
  have r: "length (labels ! y) = length (m ! y)" if "y < length m" for y
    using sh l that by (metis nth_map)
  have p0: "label_at labels p \<noteq> 0"
    using p z[of "fst p" "snd p"] by (cases p) (auto simp: fg_iff)
  show ?thesis
  proof (intro equalityI subsetI)
    fix q assume "q \<in> {(y, x). y < length labels \<and> x < length (labels ! y) \<and>
            label_at labels (y, x) = label_at labels p}"
    then obtain y x where q: "q = (y, x)" "y < length m" "x < length (m ! y)"
      "label_at labels (y, x) = label_at labels p"
      using l r by auto
    then have "m ! y ! x" using z[of y x] p0 by auto
    then have "q \<in> fg m" using q by (simp add: fg_iff)
    then show "q \<in> component m p"
      using eq[of q] q by (simp add: component_def)
  next
    fix q assume "q \<in> component m p"
    then have c: "(p, q) \<in> connected8 m" by (simp add: component_def)
    then have f: "q \<in> fg m" using connected8_in_fg p by blast
    then have "label_at labels q = label_at labels p" using eq[of q] c by simp
    moreover obtain y x where "q = (y, x)" by (cases q)
    ultimately show "q \<in> {(y, x). y < length labels \<and> x < length (labels ! y) \<and>
            label_at labels (y, x) = label_at labels p}"
      using f l r by (auto simp: fg_iff)
  qed
qed

lemma fsc_small: "a \<le> 1 \<Longrightarrow> filter_small_components e m a = m"
  by (simp add: filter_small_components_def)

lemma fsc_size0:
  "height m * width m = 0 \<Longrightarrow> filter_small_components e m a = m"
  unfolding filter_small_components_def Let_def astype_u8_dims by simp

lemma fsc_cc:
  assumes "\<not> a \<le> 1" "height m * width m \<noteq> 0"
    "cv_connectedComponentsWithStats e (astype_u8 m) = (num, labels, area)"
  shows "filter_small_components e m a =
     (if num \<le> 1 then m
      else fold (\<lambda>i keep. if a \<le> int (area ! i)
                           then logical_or keep (labels_eq labels i) else keep)
                [1..<num] (zeros (shape2 (astype_u8 m))))"
  unfolding filter_small_components_def Let_def astype_u8_dims gt0_astype_u8 assms(3) prod.case
  using assms(1,2) by simp

lemma adjacent8_sym: "adjacent8 p q \<longleftrightarrow> adjacent8 q p"
  by (auto simp: adjacent8_def)

lemma connected8_sym: "(p, q) \<in> connected8 m \<Longrightarrow> (q, p) \<in> connected8 m"
proof -
  have "sym {(p, q). p \<in> fg m \<and> q \<in> fg m \<and> adjacent8 p q}"
    using adjacent8_sym by (auto simp: sym_def)
  then have "sym (connected8 m)"
    unfolding connected8_def by (rule sym_rtrancl)
  then show "(p, q) \<in> connected8 m \<Longrightarrow> (q, p) \<in> connected8 m"
    by (rule symD)
qed

lemma connected8_step:
  "(p, q) \<in> connected8 m \<Longrightarrow> q \<in> fg m \<Longrightarrow> r \<in> fg m \<Longrightarrow> adjacent8 q r \<Longrightarrow>
   (p, r) \<in> connected8 m"
  unfolding connected8_def by (rule rtrancl_into_rtrancl) auto

lemma row_connected:
  assumes "\<And>k. lo \<le> k \<Longrightarrow> k < hi \<Longrightarrow> (y, k) \<in> fg m" "lo \<le> i" "i \<le> j" "j < hi"
  shows "((y, i), (y, j)) \<in> connected8 m"
  using assms(3,4)
proof (induction j rule: dec_induct)
  case base
  show ?case by (simp add: connected8_def)
next
  case (step n)
  have "((y, i), (y, n)) \<in> connected8 m" using step by simp
  moreover have "(y, n) \<in> fg m" "(y, Suc n) \<in> fg m"
    using assms(1,2) step by simp_all
  moreover have "adjacent8 (y, n) (y, Suc n)" by (simp add: adjacent8_def)
  ultimately show ?case by (rule connected8_step)
qed

lemma component_closed:
  assumes "p \<in> S" "\<And>q r. q \<in> S \<Longrightarrow> r \<in> fg m \<Longrightarrow> adjacent8 q r \<Longrightarrow> r \<in> S"
  shows "component m p \<subseteq> S"
proof
  fix q assume "q \<in> component m p"
  then have "(p, q) \<in> {(p, q). p \<in> fg m \<and> q \<in> fg m \<and> adjacent8 p q}\<^sup>*"
    by (simp add: component_def connected8_def)
  then show "q \<in> S"
    by (induction rule: rtrancl_induct) (use assms in auto)
qed

subsection \<open>C9: the small-component removal\<close>

lemma filter_small_components_spec:
  assumes r: "rect m"
    and cc: "cc_labelling m (cv_connectedComponentsWithStats e (astype_u8 m))"
  shows "map length (filter_small_components e m a) = map length m \<and>
         fg (filter_small_components e m a) = {p \<in> fg m. a \<le> int (card (component m p))}"
proof (cases "a \<le> 1 \<or> height m * width m = 0")
  case True
  have "fg m = {p \<in> fg m. a \<le> int (card (component m p))}"
  proof (cases "a \<le> 1")
    case True
    have "a \<le> int (card (component m p))" if "p \<in> fg m" for p
      using card_component_pos[OF that] True by linarith
    then show ?thesis by blast
  next
    case False
    with \<open>a \<le> 1 \<or> height m * width m = 0\<close> have "fg m = {}"
      using rect_empty[OF r] by simp
    then show ?thesis by simp
  qed
  moreover have "filter_small_components e m a = m"
    using True fsc_small fsc_size0 by blast
  ultimately show ?thesis by simp
next
  case False
  obtain num labels area where cv: "cv_connectedComponentsWithStats e (astype_u8 m) = (num, labels, area)"
    by (cases "cv_connectedComponentsWithStats e (astype_u8 m)") auto
  have cc': "cc_labelling m (num, labels, area)" using cc cv by simp
  note sh = cc_labellingD(1)[OF cc']
  have z: "(label_at labels (y, x) = 0 \<longleftrightarrow> \<not> m ! y ! x) \<and> label_at labels (y, x) < num"
    if "y < length m" "x < length (m ! y)" for y x
    using cc_labellingD(2,3)[OF cc' that] by simp
  note ar = cc_labellingD(5)[OF cc']
  have l: "length labels = length m" using sh by (metis length_map)
  have rw: "length (labels ! y) = length (m ! y)" if "y < length m" for y
    using sh l that by (metis nth_map)
  have area_comp: "area ! label_at labels p = card (component m p)" if "p \<in> fg m" for p
  proof -
    have "label_at labels p < num"
      using that z[of "fst p" "snd p"] by (cases p) (auto simp: fg_iff)
    then show ?thesis
      using ar[of "label_at labels p"] label_class_is_component[OF cc' that] by simp
  qed
  show ?thesis
  proof (cases "num \<le> 1")
    case True
    have "fg m = {}"
    proof -
      have False if "(y, x) \<in> fg m" for y x
        using that z[of y x] True by (auto simp: fg_iff)
      then show ?thesis by auto
    qed
    moreover have "filter_small_components e m a = m"
      using fsc_cc[OF _ _ cv, of a] False True by simp
    ultimately show ?thesis by simp
  next
    case n: False
    define K where "K = fold (\<lambda>i keep. if a \<le> int (area ! i)
                                    then logical_or keep (labels_eq labels i) else keep)
                         [1..<num] (zeros (shape2 (astype_u8 m)))"
    have res: "filter_small_components e m a = K"
      using fsc_cc[OF _ _ cv, of a] False n by (simp add: K_def)
    have z0: "map length (zeros (shape2 (astype_u8 m))) = map length labels"
      using rect_shape[OF r] sh by (simp add: shape2_def)
    note fk = fold_keep[OF z0, of "\<lambda>i. a \<le> int (area ! i)" "[1..<num]", folded K_def]
    have Ksh: "map length K = map length m" using fk[THEN conjunct1] sh by simp
    have Kpt: "K ! y ! x = (m ! y ! x \<and> a \<le> int (card (component m (y, x))))"
      if "y < length m" "x < length (m ! y)" for y x
    proof -
      have "length (m ! y) = width m"
        using r that(1) by (simp add: rect_def list_all_iff)
      then have zz: "\<not> zeros (shape2 (astype_u8 m)) ! y ! x"
        using that by (simp add: zeros_def shape2_def) (simp add: height_def)
      have yl: "y < length labels \<and> x < length (labels ! y)"
        using that l rw by simp
      have "K ! y ! x = (\<exists>i \<in> set [1..<num]. a \<le> int (area ! i) \<and> labels ! y ! x = i)"
        using fk[THEN conjunct2, rule_format, OF yl] zz by simp
      also have "\<dots> = (label_at labels (y, x) \<noteq> 0 \<and> a \<le> int (area ! label_at labels (y, x)))"
      proof -
        have "label_at labels (y, x) < num" using z[OF that] by simp
        then have "labels ! y ! x \<in> set [1..<num] \<longleftrightarrow> label_at labels (y, x) \<noteq> 0"
          by (auto simp: label_at_def)
        then show ?thesis by (auto simp: label_at_def)
      qed
      also have "\<dots> = (m ! y ! x \<and> a \<le> int (card (component m (y, x))))"
        using z[OF that] area_comp[of "(y, x)"] that by (auto simp: fg_iff)
      finally show ?thesis .
    qed
    have "fg K = {p. fst p < length m \<and> snd p < length (m ! fst p) \<and>
                  (m ! fst p ! snd p \<and> a \<le> int (card (component m p)))}"
      using fg_shape_cong[OF Ksh, of "\<lambda>p. m ! fst p ! snd p \<and> a \<le> int (card (component m p))"] Kpt
      by simp
    also have "\<dots> = {p \<in> fg m. a \<le> int (card (component m p))}"
      by (auto simp: fg_iff)
    finally show ?thesis using Ksh res by simp
  qed
qed

lemma strip_row_nth:
  "x < 111 \<Longrightarrow> (replicate 10 True @ False # replicate 100 True) ! x = (x \<noteq> 10)"
  by (auto simp: nth_append nth_Cons')

lemma strip_labels_nth:
  "x < 111 \<Longrightarrow> (replicate 10 (1::nat) @ 0 # replicate 100 2) ! x
     = (if x < 10 then 1 else if x = 10 then 0 else 2)"
  by (auto simp: nth_append nth_Cons')

lemma fg_strip: "fg strip_mask = Pair 0 ` {0..<10} \<union> Pair 0 ` {11..<111}"
proof -
  have "(y, x) \<in> fg strip_mask \<longleftrightarrow> y = 0 \<and> (x < 10 \<or> 11 \<le> x \<and> x < 111)" for y x
    using strip_row_nth[of x] by (auto simp: fg_iff strip_mask_def)
  then show ?thesis by auto
qed

lemma strip_left_connected:
  assumes "p \<in> Pair 0 ` {0..<10}" "q \<in> Pair 0 ` {0..<10}"
  shows "(p, q) \<in> connected8 strip_mask"
proof -
  obtain i j where pq: "p = (0, i)" "q = (0, j)" "i < 10" "j < 10" using assms by auto
  have f: "\<And>k. 0 \<le> k \<Longrightarrow> k < 10 \<Longrightarrow> (0, k) \<in> fg strip_mask"
    by (simp add: fg_strip)
  show ?thesis
  proof (cases "i \<le> j")
    case True
    then show ?thesis
      using row_connected[where lo = 0 and hi = 10 and i = i and j = j and y = 0, OF f] pq by simp
  next
    case False
    then have "((0, j), (0, i)) \<in> connected8 strip_mask"
      using row_connected[where lo = 0 and hi = 10 and i = j and j = i and y = 0, OF f] pq by simp
    then show ?thesis using pq connected8_sym by blast
  qed
qed

lemma strip_right_connected:
  assumes "p \<in> Pair 0 ` {11..<111}" "q \<in> Pair 0 ` {11..<111}"
  shows "(p, q) \<in> connected8 strip_mask"
proof -
  obtain i j where pq: "p = (0, i)" "q = (0, j)" "11 \<le> i" "i < 111" "11 \<le> j" "j < 111"
    using assms by auto
  have f: "\<And>k. 11 \<le> k \<Longrightarrow> k < 111 \<Longrightarrow> (0, k) \<in> fg strip_mask"
    by (simp add: fg_strip)
  show ?thesis
  proof (cases "i \<le> j")
    case True
    then show ?thesis
      using row_connected[where lo = 11 and hi = 111 and i = i and j = j and y = 0, OF f] pq
      by simp
  next
    case False
    then have "((0, j), (0, i)) \<in> connected8 strip_mask"
      using row_connected[where lo = 11 and hi = 111 and i = j and j = i and y = 0, OF f] pq
      by simp
    then show ?thesis using pq connected8_sym by blast
  qed
qed

lemma strip_left_component:
  assumes "p \<in> Pair 0 ` {0..<10}"
  shows "component strip_mask p = Pair 0 ` {0..<10}"
proof
  show "component strip_mask p \<subseteq> Pair 0 ` {0..<10}"
  proof (rule component_closed[OF assms])
    fix q r assume "q \<in> Pair 0 ` {0..<10}" "r \<in> fg strip_mask" "adjacent8 q r"
    then show "r \<in> Pair 0 ` {0..<10}"
      by (auto simp: fg_strip adjacent8_def)
  qed
  show "Pair 0 ` {0..<10} \<subseteq> component strip_mask p"
    using strip_left_connected[OF assms] by (auto simp: component_def)
qed

lemma strip_right_component:
  assumes "p \<in> Pair 0 ` {11..<111}"
  shows "component strip_mask p = Pair 0 ` {11..<111}"
proof
  show "component strip_mask p \<subseteq> Pair 0 ` {11..<111}"
  proof (rule component_closed[OF assms])
    fix q r assume "q \<in> Pair 0 ` {11..<111}" "r \<in> fg strip_mask" "adjacent8 q r"
    then show "r \<in> Pair 0 ` {11..<111}"
      by (auto simp: fg_strip adjacent8_def)
  qed
  show "Pair 0 ` {11..<111} \<subseteq> component strip_mask p"
    using strip_right_connected[OF assms] by (auto simp: component_def)
qed

lemma strip_label_at:
  "x < 111 \<Longrightarrow> label_at strip_labels (0, x)
     = (if x < 10 then 1 else if x = 10 then 0 else 2)"
  by (auto simp: label_at_def strip_labels_def nth_append nth_Cons')

lemma strip_class:
  "{(y, x). y < length strip_labels \<and>
            x < length (strip_labels ! y) \<and>
            label_at strip_labels (y, x) = i}
   = Pair 0 ` {x. x < 111 \<and> (if x < 10 then 1 else if x = 10 then 0 else 2) = i}"
proof -
  have "length strip_labels = 1" "length (strip_labels ! 0) = 111"
    by (simp_all add: strip_labels_def)
  then show ?thesis using strip_label_at by auto
qed

lemma strip_cc_labelling: "cc_labelling strip_mask strip_cc"
proof -
  have c1: "map length strip_labels = map length strip_mask"
    by (simp add: strip_mask_def strip_labels_def)
  have c2: "(label_at strip_labels (y, x) = 0 \<longleftrightarrow> \<not> strip_mask ! y ! x) \<and>
      label_at strip_labels (y, x) < 3"
    if "y < length strip_mask \<and> x < length (strip_mask ! y)" for y x
  proof -
    from that have y: "y = 0" by (simp add: strip_mask_def)
    with that have "x < 111" by (simp add: strip_mask_def)
    with y show ?thesis
      using strip_row_nth[of x] by (simp add: strip_label_at strip_mask_def)
  qed
  have c3: "label_at strip_labels p
              = label_at strip_labels q \<longleftrightarrow> (p, q) \<in> connected8 strip_mask"
    if "p \<in> fg strip_mask" "q \<in> fg strip_mask" for p q
  proof -
    have "q \<in> component strip_mask p \<longleftrightarrow> (p, q) \<in> connected8 strip_mask"
      by (simp add: component_def)
    moreover have "q \<in> component strip_mask p \<longleftrightarrow>
        label_at strip_labels p
          = label_at strip_labels q"
      using that strip_left_component[of p] strip_right_component[of p]
      by (auto simp: fg_strip strip_label_at)
    ultimately show ?thesis by simp
  qed
  have c5: "[1, 10, 100] ! i =
      card {(y, x). y < length strip_labels \<and> x < length (strip_labels ! y) \<and>
            label_at strip_labels (y, x) = i}"
    if "i < 3" for i
  proof -
    have inj: "inj_on (Pair (0::nat)) (S :: nat set)" for S by (simp add: inj_on_def)
    have "{x. x < 111 \<and> (if x < 10 then 1 else if x = 10 then 0 else 2) = (0::nat)} = {10::nat}"
      by auto
    then have k0: "card {(y, x). y < length strip_labels \<and> x < length (strip_labels ! y) \<and>
            label_at strip_labels (y, x) = 0} = 1"
      unfolding strip_class by simp
    have "{x. x < 111 \<and> (if x < 10 then 1 else if x = 10 then 0 else 2) = (1::nat)} = {0..<10::nat}"
      by auto
    then have k1: "card {(y, x). y < length strip_labels \<and> x < length (strip_labels ! y) \<and>
            label_at strip_labels (y, x) = 1} = 10"
      unfolding strip_class by (simp add: card_image[OF inj])
    have "{x. x < 111 \<and> (if x < 10 then 1 else if x = 10 then 0 else 2) = (2::nat)} = {11..<111::nat}"
      by auto
    then have k2: "card {(y, x). y < length strip_labels \<and> x < length (strip_labels ! y) \<and>
            label_at strip_labels (y, x) = 2} = 100"
      unfolding strip_class by (simp add: card_image[OF inj])
    from that consider "i = 0" | "i = 1" | "i = 2" by linarith
    then show ?thesis
    proof cases
      case 1 then show ?thesis using k0 by simp
    next
      case 2 then show ?thesis using k1 by simp
    next
      case 3 then show ?thesis using k2 by simp
    qed
  qed
  show ?thesis
    unfolding cc_labelling_def strip_cc_def prod.case
    using c1 c2 c3 c5 by (intro conjI ballI allI impI) simp_all
qed

lemma strip_filter_value:
  "filter_small_components strip_env strip_mask 50 = [replicate 11 False @ replicate 100 True]"
  by code_simp

text \<open>
  Claim C9. For a (rectangular) mask and a result of the labelling at connectivity 8 for it,
  \<open>_filter_small_components\<close> with minimum area \<open>a\<close> returns a mask of the same shape whose
  set pixels are exactly the set pixels of the input whose connected component has at least
  \<open>a\<close> pixels; so does the pipeline, which calls it when \<open>a > 1\<close> and keeps the mask
  otherwise. In particular, when the set pixels are two components \<open>A\<close> and \<open>B\<close> with
  \<open>|A| < a \<le> |B|\<close> (10 and 100 pixels with a minimum area of 50), the result is exactly
  \<open>B\<close>.
\<close>

theorem small_component_removal:
  assumes "rect m"
    and "cc_labelling m (cv_connectedComponentsWithStats e (astype_u8 m))"
  shows "map length (filter_small_components e m a) = map length m
       \<and> fg (filter_small_components e m a) = {p \<in> fg m. a \<le> int (card (component m p))}
       \<and> fg (if 1 < a then filter_small_components e m a else m)
            = {p \<in> fg m. a \<le> int (card (component m p))}
       \<and> (fg m = A \<union> B \<and> (\<forall>p \<in> A. component m p = A) \<and> (\<forall>p \<in> B. component m p = B) \<and>
          int (card A) < a \<and> a \<le> int (card B)
            \<longrightarrow> fg (filter_small_components e m a) = B)"
proof -
  note s = filter_small_components_spec[OF assms, of a]
  have 3: "fg (if 1 < a then filter_small_components e m a else m)
            = {p \<in> fg m. a \<le> int (card (component m p))}"
  proof (cases "1 < a")
    case True
    then show ?thesis using s by simp
  next
    case False
    then have "filter_small_components e m a = m" by (simp add: fsc_small)
    then show ?thesis using s False by simp
  qed
  have 4: "fg (filter_small_components e m a) = B"
    if "fg m = A \<union> B \<and> (\<forall>p \<in> A. component m p = A) \<and> (\<forall>p \<in> B. component m p = B) \<and>
          int (card A) < a \<and> a \<le> int (card B)"
  proof -
    have "{p \<in> fg m. a \<le> int (card (component m p))} = B"
      using that by auto
    then show ?thesis using s by simp
  qed
  show ?thesis using s 3 4 by blast
qed

theorem small_component_removal_witness:
  "rect strip_mask \<and>
   cc_labelling strip_mask (cv_connectedComponentsWithStats strip_env (astype_u8 strip_mask)) \<and>
   fg strip_mask = Pair 0 ` {0..<10} \<union> Pair 0 ` {11..<111} \<and>
   card (Pair (0::nat) ` {0..<10::nat}) = 10 \<and> card (Pair (0::nat) ` {11..<111::nat}) = 100 \<and>
   fg (filter_small_components strip_env strip_mask 50) = Pair 0 ` {11..<111} \<and>
   filter_small_components strip_env strip_mask 50 = [replicate 11 False @ replicate 100 True]"
proof -
  have r: "rect strip_mask" by (simp add: rect_def strip_mask_def width_def)
  have c: "cc_labelling strip_mask (cv_connectedComponentsWithStats strip_env (astype_u8 strip_mask))"
    by (simp add: strip_env_def strip_cc_labelling)
  have inj: "inj_on (Pair (0::nat)) (S :: nat set)" for S by (simp add: inj_on_def)
  have k: "card (Pair (0::nat) ` {0..<10::nat}) = 10" "card (Pair (0::nat) ` {11..<111::nat}) = 100"
    by (simp_all add: card_image[OF inj])
  have h: "fg strip_mask = Pair 0 ` {0..<10} \<union> Pair 0 ` {11..<111} \<and>
      (\<forall>p \<in> Pair 0 ` {0..<10}. component strip_mask p = Pair 0 ` {0..<10}) \<and>
      (\<forall>p \<in> Pair 0 ` {11..<111}. component strip_mask p = Pair 0 ` {11..<111}) \<and>
      int (card (Pair (0::nat) ` {0..<10::nat})) < 50 \<and>
      50 \<le> int (card (Pair (0::nat) ` {11..<111::nat}))"
    using fg_strip strip_left_component strip_right_component k by simp
  note t = small_component_removal[OF r c, of 50, THEN conjunct2, THEN conjunct2, THEN conjunct2,
      rule_format, OF h]
  show ?thesis
    using r c fg_strip k t strip_filter_value by simp
qed

subsection \<open>C6: the input frame and the shape of the result\<close>

lemma shape_of_shape3: "shape_of a = shape_of b \<Longrightarrow> shape3 a = shape3 b"
proof -
  assume h: "shape_of a = shape_of b"
  have 1: "height a = height b"
    using h by (metis shape_of_def height_def length_map)
  have 2: "width a = width b \<and> channels a = channels b"
  proof (cases a)
    case Nil
    then have "b = []" using h by (simp add: shape_of_def)
    with Nil show ?thesis by simp
  next
    case (Cons r a')
    then obtain s b' where b: "b = s # b'" using h by (cases b) (auto simp: shape_of_def)
    have rs: "map length r = map length s" using h Cons b by (simp add: shape_of_def)
    then have "length r = length s" by (metis length_map)
    moreover have "(case r of [] \<Rightarrow> 0 | p # _ \<Rightarrow> length p) = (case s of [] \<Rightarrow> 0 | p # _ \<Rightarrow> length p)"
      using rs by (cases r; cases s) auto
    ultimately show ?thesis using Cons b by (simp add: width_def channels_def)
  qed
  show ?thesis using 1 2 by (simp add: shape3_def)
qed

lemma assign_row_shape:
  assumes "map length brow = map length (take k (drop x0 r))"
  shows "map length (take x0 r @ brow @ drop (x0 + length brow) r) = map length r"
proof -
  have n: "length brow = length (take k (drop x0 r))"
    using assms by (metis length_map)
  have "drop (x0 + length brow) r = drop (length (take k (drop x0 r))) (drop x0 r)"
    by (simp add: n add.commute)
  also have "\<dots> = drop k (drop x0 r)"
    by (simp add: min_def)
  finally have d: "drop (x0 + length brow) r = drop k (drop x0 r)" .
  have "map length (take x0 r @ brow @ drop (x0 + length brow) r)
      = map length (take x0 r) @ map length (take k (drop x0 r)) @ map length (drop k (drop x0 r))"
    by (simp add: assms d)
  also have "\<dots> = map length (take x0 r @ (take k (drop x0 r) @ drop k (drop x0 r)))"
    by simp
  also have "\<dots> = map length r"
    by (simp only: append_take_drop_id)
  finally show ?thesis .
qed

lemma assign_slice2_shape:
  assumes "shape_of b = shape_of (slice2 y0 y1 x0 x1 a)"
  shows "shape_of (assign_slice2 y0 x0 b a) = shape_of a"
proof -
  have lb: "length b = length (take (y1 - y0) (drop y0 a))"
    using assms by (metis shape_of_def slice2_def length_map)
  have rows: "map length (b ! i) = map length (take (x1 - x0) (drop x0 (a ! (y0 + i))))"
    if "i < length b" for i
  proof -
    have "shape_of b ! i = shape_of (slice2 y0 y1 x0 x1 a) ! i" using assms by simp
    moreover have "shape_of b ! i = map length (b ! i)" using that by (simp add: shape_of_def)
    moreover have "shape_of (slice2 y0 y1 x0 x1 a) ! i
        = map length (take (x1 - x0) (drop x0 (a ! (y0 + i))))"
    proof -
      have "y0 \<le> length a" using that lb by (cases "y0 \<le> length a") simp_all
      then have "drop y0 a ! i = a ! (y0 + i)" by (rule nth_drop)
      then show ?thesis using that lb by (simp add: shape_of_def slice2_def)
    qed
    ultimately show ?thesis by simp
  qed
  show ?thesis
    unfolding shape_of_def assign_slice2_def
  proof (rule nth_equalityI)
    show "length (map (map length) (map (\<lambda>(y, r). if y0 \<le> y \<and> y < y0 + length b
                    then take x0 r @ (b ! (y - y0)) @ drop (x0 + length (b ! (y - y0))) r
                    else r) (enumerate 0 a))) = length (map (map length) a)"
      by simp
  next
    fix y assume "y < length (map (map length) (map (\<lambda>(y, r). if y0 \<le> y \<and> y < y0 + length b
                    then take x0 r @ (b ! (y - y0)) @ drop (x0 + length (b ! (y - y0))) r
                    else r) (enumerate 0 a)))"
    then have y: "y < length a" by simp
    show "map (map length) (map (\<lambda>(y, r). if y0 \<le> y \<and> y < y0 + length b
                    then take x0 r @ (b ! (y - y0)) @ drop (x0 + length (b ! (y - y0))) r
                    else r) (enumerate 0 a)) ! y = map (map length) a ! y"
    proof (cases "y0 \<le> y \<and> y < y0 + length b")
      case True
      then have i: "y - y0 < length b" by auto
      have "map length (take x0 (a ! y) @ (b ! (y - y0)) @ drop (x0 + length (b ! (y - y0))) (a ! y))
          = map length (a ! y)"
        using rows[OF i] True by (intro assign_row_shape[where k = "x1 - x0"]) simp
      then show ?thesis using y True by (simp add: nth_enumerate_eq)
    next
      case False
      then show ?thesis using y by (auto simp: nth_enumerate_eq)
    qed
  qed
qed

lemma fill_roi_mem_effect:
  assumes ks: "inpaint_keeps_shape e" and a: "a < length st"
  shows "case fill_roi_mem e self st a m of
           (st', res) \<Rightarrow>
             (\<forall>b < length st. st' ! b = st ! b) \<and>
             (case res of
                Inl err \<Rightarrow> fill_roi e self (st ! a) m = Inl err
              | Inr (r, bb) \<Rightarrow>
                  length st \<le> r \<and> r < length st' \<and>
                  shape_of (st' ! r) = shape_of (st ! a) \<and>
                  fill_roi e self (st ! a) m = Inr (st' ! r, bb))"
proof (cases "any2 m")
  case False
  then show ?thesis
    by (simp add: fill_roi_mem_def fill_roi_def alloc_def nth_append)
next
  case True
  obtain y0 y1 x0 x1 where rb: "roi_bounds self (height (st ! a)) (width (st ! a)) m = (y0, y1, x0, x1)"
    by (cases "roi_bounds self (height (st ! a)) (width (st ! a)) m") auto
  show ?thesis
  proof (cases "y1 \<le> y0 \<or> x1 \<le> x0")
    case d: True
    have sh: "shape_of (cv_inpaint e (st ! a) (times255 (astype_u8 m)) (inpaint_radius self)
             (inpaint_flags self)) = shape_of (st ! a)"
      using ks by (simp add: inpaint_keeps_shape_def)
    show ?thesis
    proof (cases "shape2 (times255 (astype_u8 m)) = shape2 (st ! a)")
      case fits: True
      then show ?thesis
        using True d sh
        by (simp add: fill_roi_mem_def fill_roi_def rb alloc_def nth_append cv2_inpaint_def)
    next
      case False
      then show ?thesis
        using True d
        by (simp add: fill_roi_mem_def fill_roi_def rb cv2_inpaint_def)
    qed
  next
    case nd: False
    define roi_img where "roi_img = slice2 (nat y0) (nat (y1 + 1)) (nat x0) (nat (x1 + 1)) (st ! a)"
    define roi_mask where "roi_mask =
        slice2 (nat y0) (nat (y1 + 1)) (nat x0) (nat (x1 + 1)) (times255 (astype_u8 m))"
    define roi_result where "roi_result =
        cv_inpaint e roi_img roi_mask (inpaint_radius self) (inpaint_flags self)"
    have sh: "shape_of roi_result = shape_of roi_img"
      using ks by (simp add: inpaint_keeps_shape_def roi_result_def)
    show ?thesis
    proof (cases "shape2 roi_mask = shape2 roi_img")
      case fits: True
      have mem: "fill_roi_mem e self st a m =
          ((st @ [st ! a, roi_result])[length st := assign_slice2 (nat y0) (nat x0) roi_result (st ! a)],
           Inr (length st, [y0, y1, x0, x1]))"
        using True nd fits
        by (simp add: fill_roi_mem_def rb alloc_def Let_def nth_append cv2_inpaint_def
            roi_result_def roi_img_def roi_mask_def)
      have pure: "fill_roi e self (st ! a) m =
          Inr (assign_slice2 (nat y0) (nat x0) roi_result (st ! a), [y0, y1, x0, x1])"
        using True nd fits
        by (simp add: fill_roi_def rb Let_def cv2_inpaint_def roi_result_def roi_img_def
            roi_mask_def)
      show ?thesis
        unfolding mem pure prod.case sum.case
        using assign_slice2_shape[OF sh[unfolded roi_img_def]]
        by (simp add: nth_append nth_list_update)
    next
      case False
      have mem: "fill_roi_mem e self st a m = (st @ [st ! a], Inl CvError)"
        using True nd False
        by (simp add: fill_roi_mem_def rb alloc_def Let_def nth_append cv2_inpaint_def
            roi_img_def roi_mask_def)
      have pure: "fill_roi e self (st ! a) m = Inl CvError"
        using True nd False
        by (simp add: fill_roi_def rb Let_def cv2_inpaint_def roi_img_def roi_mask_def)
      show ?thesis
        unfolding mem pure prod.case sum.case by (simp add: nth_append)
    qed
  qed
qed

lemma perform_mem_effect:
  assumes ks: "inpaint_keeps_shape e" and a: "a < length st"
  shows "case perform_mem e self st a c of
           (st', r) \<Rightarrow>
             (\<forall>b < length st. st' ! b = st ! b) \<and> length st \<le> r \<and> r < length st' \<and>
             shape_of (st' ! r) = shape_of (st ! a) \<and>
             st' ! r = perform e self (st ! a) c"
  using ks by (cases c) (simp_all add: perform_mem_def perform_def alloc_def nth_append
      inpaint_keeps_shape_def)

lemma demo_inpaint_shape: "shape_of (demo_inpaint img m r f) = shape_of img"
  unfolding shape_of_def demo_inpaint_def
proof (rule nth_equalityI)
  show "length (map (map length) (map (\<lambda>(y, row).
            map (\<lambda>(x, p). if y < length m \<and> x < length (m ! y) \<and> m ! y ! x \<noteq> 0
                          then map (\<lambda>c. 0) p else p)
                (enumerate 0 row)) (enumerate 0 img))) = length (map (map length) img)"
    by simp
next
  fix y assume "y < length (map (map length) (map (\<lambda>(y, row).
            map (\<lambda>(x, p). if y < length m \<and> x < length (m ! y) \<and> m ! y ! x \<noteq> 0
                          then map (\<lambda>c. 0) p else p)
                (enumerate 0 row)) (enumerate 0 img)))"
  then have y: "y < length img" by simp
  have "map length (map (\<lambda>(x, p). if y < length m \<and> x < length (m ! y) \<and> m ! y ! x \<noteq> 0
                          then map (\<lambda>c. 0) p else p) (enumerate 0 (img ! y)))
      = map length (img ! y)"
    by (rule nth_equalityI) (simp_all add: nth_enumerate_eq)
  then show "map (map length) (map (\<lambda>(y, row).
            map (\<lambda>(x, p). if y < length m \<and> x < length (m ! y) \<and> m ! y ! x \<noteq> 0
                          then map (\<lambda>c. 0) p else p)
                (enumerate 0 row)) (enumerate 0 img)) ! y = map (map length) img ! y"
    using y by (simp add: nth_enumerate_eq)
qed

lemma demo_keeps_shape: "inpaint_keeps_shape demo_env"
  by (simp add: inpaint_keeps_shape_def demo_env_def demo_inpaint_shape)

text \<open>
  Claim C6. For every store, every input frame in it and every hint mask, both
  \<open>RTMDetInpainterStable.inpaint\<close> and \<open>RTMDetInpainter.inpaint\<close> leave every array of the store
  as it was, the input frame among them; when they return a frame it is a new array, of the
  height, width and channel count of the input frame, and its value is the one the value-level
  model of the method computes (as is the exception when they raise). The shape rests on
  OpenCV's fill returning a frame of the shape of its input.
\<close>

theorem input_frame_not_mutated:
  assumes "inpaint_keeps_shape e" and "a < length st"
  shows "(case inpaint_stable_mem e self st (Some a) prior of
            (res, self', st') \<Rightarrow>
              (\<forall>b < length st. st' ! b = st ! b) \<and> st' ! a = st ! a \<and>
              (case res of
                 Inl err \<Rightarrow> inpaint_stable e self (Some (st ! a)) prior = (Inl err, self')
               | Inr r \<Rightarrow>
                   length st \<le> r \<and> r < length st' \<and>
                   shape3 (st' ! r) = shape3 (st ! a) \<and>
                   inpaint_stable e self (Some (st ! a)) prior = (Inr (st' ! r), self')))
       \<and> (case inpaint_mem e base st (Some a) hint of
            (res, st') \<Rightarrow>
              (\<forall>b < length st. st' ! b = st ! b) \<and> st' ! a = st ! a \<and>
              (case res of
                 Inl err \<Rightarrow> inpaint e base (Some (st ! a)) hint = Inl err
               | Inr r \<Rightarrow>
                   length st \<le> r \<and> r < length st' \<and>
                   shape3 (st' ! r) = shape3 (st ! a) \<and>
                   inpaint e base (Some (st ! a)) hint = Inr (st' ! r)))"
proof
  show "case inpaint_stable_mem e self st (Some a) prior of
            (res, self', st') \<Rightarrow>
              (\<forall>b < length st. st' ! b = st ! b) \<and> st' ! a = st ! a \<and>
              (case res of
                 Inl err \<Rightarrow> inpaint_stable e self (Some (st ! a)) prior = (Inl err, self')
               | Inr r \<Rightarrow>
                   length st \<le> r \<and> r < length st' \<and>
                   shape3 (st' ! r) = shape3 (st ! a) \<and>
                   inpaint_stable e self (Some (st ! a)) prior = (Inr (st' ! r), self'))"
  proof (cases "stable_masks e self (Some (st ! a))")
    case (Pair res0 self')
    show ?thesis
    proof (cases res0)
      case (Inl err)
      then show ?thesis
        using Pair by (simp add: inpaint_stable_mem_def inpaint_stable_def)
    next
      case (Inr dmm)
      obtain dm m where dmm: "dmm = (dm, m)" by (cases dmm)
      obtain st' res where f: "fill_roi_mem e self' st a m = (st', res)"
        by (cases "fill_roi_mem e self' st a m") auto
      have eff0: "(\<forall>b < length st. st' ! b = st ! b) \<and>
             (case res of
                Inl err \<Rightarrow> fill_roi e self' (st ! a) m = Inl err
              | Inr (r, bb) \<Rightarrow>
                  length st \<le> r \<and> r < length st' \<and>
                  shape_of (st' ! r) = shape_of (st ! a) \<and>
                  fill_roi e self' (st ! a) m = Inr (st' ! r, bb))"
        using fill_roi_mem_effect[OF assms, of self' m] unfolding f prod.case .
      show ?thesis
      proof (cases res)
        case raised: (Inl err)
        then show ?thesis
          using Pair Inr dmm f eff0 assms(2)
          by (simp add: inpaint_stable_mem_def inpaint_stable_def)
      next
        case returned: (Inr rbb)
        obtain r bb where rbb: "rbb = (r, bb)" by (cases rbb)
        have eff: "(\<forall>b < length st. st' ! b = st ! b)" "length st \<le> r" "r < length st'"
          "shape_of (st' ! r) = shape_of (st ! a)"
          "fill_roi e self' (st ! a) m = Inr (st' ! r, bb)"
          using eff0 by (simp_all add: returned rbb)
        have "shape3 (st' ! r) = shape3 (st ! a)"
          using eff(4) by (rule shape_of_shape3)
        then show ?thesis
          using Pair Inr dmm f eff assms(2)
          by (simp add: inpaint_stable_mem_def inpaint_stable_def returned rbb)
      qed
    qed
  qed
next
  show "case inpaint_mem e base st (Some a) hint of
            (res, st') \<Rightarrow>
              (\<forall>b < length st. st' ! b = st ! b) \<and> st' ! a = st ! a \<and>
              (case res of
                 Inl err \<Rightarrow> inpaint e base (Some (st ! a)) hint = Inl err
               | Inr r \<Rightarrow>
                   length st \<le> r \<and> r < length st' \<and>
                   shape3 (st' ! r) = shape3 (st ! a) \<and>
                   inpaint e base (Some (st ! a)) hint = Inr (st' ! r))"
  proof (cases "inpaint_call e base (Some (st ! a)) hint")
    case (Inl err)
    then show ?thesis by (simp add: inpaint_mem_def inpaint_def)
  next
    case (Inr c)
    obtain st' r where f: "perform_mem e base st a c = (st', r)"
      by (cases "perform_mem e base st a c") auto
    have eff0: "(\<forall>b < length st. st' ! b = st ! b) \<and> length st \<le> r \<and> r < length st' \<and>
      shape_of (st' ! r) = shape_of (st ! a) \<and> st' ! r = perform e base (st ! a) c"
      using perform_mem_effect[OF assms, of base c] unfolding f prod.case .
    then have eff: "(\<forall>b < length st. st' ! b = st ! b)" "length st \<le> r" "r < length st'"
      "shape_of (st' ! r) = shape_of (st ! a)" "st' ! r = perform e base (st ! a) c"
      by blast+
    have "shape3 (st' ! r) = shape3 (st ! a)"
      using eff(4) by (rule shape_of_shape3)
    then show ?thesis
      using Inr f eff assms(2) by (simp add: inpaint_mem_def inpaint_def)
  qed
qed

theorem input_frame_not_mutated_witness:
  "inpaint_keeps_shape demo_env \<and> (0::nat) < length [frame5w] \<and>
   fst (inpaint_stable_mem demo_env ((demo_stable 1)\<lparr>roi_margin := 1\<rparr>) [frame5w] (Some 0) None)
     = Inr 1 \<and>
   take 2 (snd (snd (inpaint_stable_mem demo_env ((demo_stable 1)\<lparr>roi_margin := 1\<rparr>) [frame5w]
                       (Some 0) None)))
     = [frame5w, frame5b] \<and>
   shape3 frame5b = shape3 frame5w \<and>
   fst (inpaint_stable demo_env ((demo_stable 1)\<lparr>roi_margin := 1\<rparr>) (Some frame5w) None)
     = Inr frame5b \<and>
   inpaint_mem demo_env demo_base [frame5w] (Some 0) None = (Inr 1, [frame5w, frame5b]) \<and>
   inpaint demo_env demo_base (Some frame5w) None = Inr frame5b"
proof -
  have l: "(0::nat) < length [frame5w]" by simp
  have 1: "fst (inpaint_stable_mem demo_env ((demo_stable 1)\<lparr>roi_margin := 1\<rparr>) [frame5w] (Some 0) None)
     = Inr 1" by code_simp
  have 2: "take 2 (snd (snd (inpaint_stable_mem demo_env ((demo_stable 1)\<lparr>roi_margin := 1\<rparr>) [frame5w]
                       (Some 0) None))) = [frame5w, frame5b]" by code_simp
  have 3: "inpaint_mem demo_env demo_base [frame5w] (Some 0) None = (Inr 1, [frame5w, frame5b])"
    by code_simp
  note t = input_frame_not_mutated[OF demo_keeps_shape l,
      of "(demo_stable 1)\<lparr>roi_margin := 1\<rparr>" None demo_base None]
  have "take 2 (snd (snd (inpaint_stable_mem demo_env ((demo_stable 1)\<lparr>roi_margin := 1\<rparr>) [frame5w]
                       (Some 0) None))) ! 1
      = snd (snd (inpaint_stable_mem demo_env ((demo_stable 1)\<lparr>roi_margin := 1\<rparr>) [frame5w]
                       (Some 0) None)) ! 1"
    by (rule nth_take) simp
  then have s: "snd (snd (inpaint_stable_mem demo_env ((demo_stable 1)\<lparr>roi_margin := 1\<rparr>) [frame5w]
                       (Some 0) None)) ! 1 = frame5b"
    by (simp add: 2)
  show ?thesis
    using demo_keeps_shape l 1 2 3 s t
    by (auto split: prod.splits sum.splits)
qed

end
